theory Spec2Isabelle
  imports Main "HOL-Library.Word"
begin

section \<open>mkrom: padding an EmuTOS binary into a ROM image\<close>

text \<open>
  A shallow embedding of \<^verbatim>\<open>tools/mkrom.c\<close>. Every C function is a HOL function of the
  same name that takes the C arguments and the state the C function reads or changes
  (the streams it is handed and the process-wide \<open>world\<close>), and returns the C return
  value with the changed state.

  Integers. \<open>size_t\<close>, \<open>long\<close> and \<open>unsigned long\<close> have \<open>w\<close> bits on the host
  (ILP32 and LP64 hosts); \<open>w\<close> is the first argument of every function whose result
  depends on it. Sizes are natural numbers below \<open>2 ^ w\<close>; the one place where the C
  arithmetic can wrap, the multiplication in \<open>get_size_value\<close>, is written \<open>mod 2 ^ w\<close>.
  The subtractions of the program are all guarded by a comparison in the code, so they
  never wrap. The C variables \<^verbatim>\<open>target_size\<close> and \<^verbatim>\<open>source_size\<close> are written
  \<open>target_sz\<close> and \<open>source_sz\<close>, the word library having constants of those names.
\<close>

subsection \<open>Constants and diagnostics\<close>

type_synonym byte = "8 word"

definition SIZE_ERROR :: "nat \<Rightarrow> nat" where
  "SIZE_ERROR w = 2 ^ w - 1"

definition ULONG_MAX :: "nat \<Rightarrow> nat" where
  "ULONG_MAX w = 2 ^ w - 1"

definition LONG_MAX :: "nat \<Rightarrow> nat" where
  "LONG_MAX w = 2 ^ (w - 1) - 1"

definition MIN2 :: "nat \<Rightarrow> nat \<Rightarrow> nat" where
  "MIN2 a b = (if a \<le> b then a else b)"

definition BUFFER_SIZE :: nat where
  "BUFFER_SIZE = 16 * 1024"

datatype CMD_TYPE = CMD_NONE | CMD_PAD | CMD_PAK3 | CMD_STC

text \<open>
  What the program prints. A \<open>diag\<close> is one line on the error stream: \<open>Errno f\<close> is
  \<^verbatim>\<open>"%s: %s: %s\n", g_argv0, f, strerror(errno)\<close>, and the others carry the text of
  their \<^verbatim>\<open>fprintf\<close>. An \<open>info\<close> is one \<^verbatim>\<open>#\<close> line on the standard output.
\<close>

datatype diag =
    InvalidSize string
  | Errno string
  | PrematureEOF string
  | TooBig string nat
  | Usage

datatype info =
    Padding string int string
  | PaddingSteem string int string
  | Done string
  | DoneFree string nat

record world =
  g_buffer :: "byte list"
  stderr :: "diag list"
  stdout :: "info list"

definition eprint :: "diag \<Rightarrow> world \<Rightarrow> world" where
  "eprint d \<sigma> = \<sigma>\<lparr>stderr := stderr \<sigma> @ [d]\<rparr>"

definition oprint :: "info \<Rightarrow> world \<Rightarrow> world" where
  "oprint n \<sigma> = \<sigma>\<lparr>stdout := stdout \<sigma> @ [n]\<rparr>"

text \<open>The cast \<^verbatim>\<open>(long)target_size\<close> and C's division, which truncates towards zero.\<close>

definition to_long :: "nat \<Rightarrow> nat \<Rightarrow> int" where
  "to_long w n = (if LONG_MAX w < n then int n - 2 ^ w else int n)"

definition to_size_t :: "nat \<Rightarrow> int \<Rightarrow> nat" where
  "to_size_t w i = nat (i mod 2 ^ w)"

definition c_div :: "int \<Rightarrow> int \<Rightarrow> int" where
  "c_div a b = sgn a * sgn b * (\<bar>a\<bar> div \<bar>b\<bar>)"

subsection \<open>The C library: streams\<close>

text \<open>
  A stream (\<^verbatim>\<open>FILE\<close>) is the content of its file, the file position indicator, the
  error indicator, and what the device will do at the calls to come:
  \<^item> \<open>caps\<close>: how many bytes at most each of the next \<^verbatim>\<open>fread\<close>/\<^verbatim>\<open>fwrite\<close> calls
    transfers, one entry per call; once the list is used up, every call transfers all
    it is asked for (and all the file has). An entry below the request is a partial
    transfer, \<open>0\<close> a failed one.
  \<^item> \<open>faults\<close>: whether each of the next \<^verbatim>\<open>ftell\<close>/\<^verbatim>\<open>fseek\<close>/\<^verbatim>\<open>fclose\<close> calls
    fails, one entry per call; once used up, the calls succeed.
\<close>

record FILE =
  bytes :: "byte list"
  fpos :: nat
  ferror :: bool
  caps :: "nat list"
  faults :: "bool list"

datatype whence = SEEK_SET | SEEK_END

definition next_fault :: "FILE \<Rightarrow> bool" where
  "next_fault f = (case faults f of [] \<Rightarrow> False | b # _ \<Rightarrow> b)"

definition granted :: "FILE \<Rightarrow> nat \<Rightarrow> nat" where
  "granted f n = (case caps f of [] \<Rightarrow> n | c # _ \<Rightarrow> min c n)"

text \<open>\<^verbatim>\<open>ftell\<close> returns \<open>-1\<close> when the call fails or the position does not fit a \<open>long\<close>.\<close>

definition ftell :: "nat \<Rightarrow> FILE \<Rightarrow> int \<times> FILE" where
  "ftell w f =
     (if next_fault f \<or> LONG_MAX w < fpos f then - 1 else int (fpos f),
      f\<lparr>faults := tl (faults f)\<rparr>)"

definition fseek :: "FILE \<Rightarrow> int \<Rightarrow> whence \<Rightarrow> int \<times> FILE" where
  "fseek f offset wh =
     (let target = (case wh of SEEK_SET \<Rightarrow> offset
                             | SEEK_END \<Rightarrow> int (length (bytes f)) + offset)
      in if next_fault f \<or> target < 0 then (- 1, f\<lparr>faults := tl (faults f)\<rparr>)
         else (0, f\<lparr>fpos := nat target, faults := tl (faults f)\<rparr>))"

text \<open>
  \<^verbatim>\<open>fread(buf, 1, n, f)\<close>: the bytes delivered, at most \<open>n\<close>, at most what the device
  grants and at most what is left of the file. A read cut short by the device and not
  by the end of the file sets the error indicator.
\<close>

definition fread :: "nat \<Rightarrow> FILE \<Rightarrow> byte list \<times> FILE" where
  "fread n f =
     (let avail = length (bytes f) - fpos f;
          k = min (granted f n) avail
      in (take k (drop (fpos f) (bytes f)),
          f\<lparr>fpos := fpos f + k,
            ferror := ferror f \<or> (k < n \<and> k < avail),
            caps := tl (caps f)\<rparr>))"

text \<open>
  Writing \<open>ys\<close> at position \<open>p\<close> of a file: the bytes there are overwritten, the file
  grows when the write runs past its end, and a gap between the end and \<open>p\<close> reads
  as zeros.
\<close>

definition store_at :: "nat \<Rightarrow> byte list \<Rightarrow> byte list \<Rightarrow> byte list" where
  "store_at p ys xs =
     (if ys = [] then xs
      else take p xs @ replicate (p - length xs) 0 @ ys @ drop (p + length ys) xs)"

definition fwrite :: "byte list \<Rightarrow> FILE \<Rightarrow> nat \<times> FILE" where
  "fwrite xs f =
     (let k = granted f (length xs)
      in (k, f\<lparr>bytes := store_at (fpos f) (take k xs) (bytes f),
                fpos := fpos f + k,
                ferror := ferror f \<or> k < length xs,
                caps := tl (caps f)\<rparr>))"

definition EOF :: int where
  "EOF = - 1"

definition fclose :: "FILE \<Rightarrow> int" where
  "fclose f = (if next_fault f then EOF else 0)"

subsection \<open>The C library: \<^verbatim>\<open>sscanf(s, "%lu%c%c", &val, &suffix, &tail)\<close>\<close>

text \<open>
  \<^verbatim>\<open>%lu\<close> skips white space, then takes an optional sign and the longest run of
  decimal digits, converted as \<^verbatim>\<open>strtoul\<close> does in base 10: a value that does not fit
  is \<^verbatim>\<open>ULONG_MAX\<close>, and a minus sign negates the value in the unsigned type. Each
  \<^verbatim>\<open>%c\<close> takes one character, of any kind. The result is the number of items
  assigned, or \<^verbatim>\<open>EOF\<close> when the input ends before the first one (the caller only
  tells the results 1 and 2 from all others). A variable that is not assigned keeps its
  (uninitialised) value; the caller reads it only when the count says it was assigned,
  and the model puts \<open>0\<close> and \<open>CHR 0x00\<close> there.
\<close>

definition isspace :: "char \<Rightarrow> bool" where
  "isspace c = (c \<in> set [CHR '' '', CHR 0x09, CHR 0x0A, CHR 0x0B, CHR 0x0C, CHR 0x0D])"

definition isdigit :: "char \<Rightarrow> bool" where
  "isdigit c = (48 \<le> (of_char c :: nat) \<and> (of_char c :: nat) \<le> 57)"

fun atoul :: "nat \<Rightarrow> string \<Rightarrow> nat" where
  "atoul acc [] = acc"
| "atoul acc (c # cs) = atoul (acc * 10 + (of_char c - 48)) cs"

definition strtoul10 :: "nat \<Rightarrow> bool \<Rightarrow> string \<Rightarrow> nat" where
  "strtoul10 w neg ds =
     (let v = atoul 0 ds
      in if ULONG_MAX w < v then ULONG_MAX w
         else if neg then (2 ^ w - v) mod 2 ^ w
         else v)"

definition scan_lu :: "nat \<Rightarrow> string \<Rightarrow> (nat \<times> string) option" where
  "scan_lu w s =
     (let s1 = dropWhile isspace s;
          neg = (s1 \<noteq> [] \<and> hd s1 = CHR ''-'');
          s2 = (if s1 \<noteq> [] \<and> (hd s1 = CHR ''-'' \<or> hd s1 = CHR ''+'') then tl s1 else s1);
          ds = takeWhile isdigit s2
      in if ds = [] then None
         else Some (strtoul10 w neg ds, dropWhile isdigit s2))"

definition sscanf :: "nat \<Rightarrow> string \<Rightarrow> int \<times> nat \<times> char \<times> char" where
  "sscanf w s =
     (case scan_lu w s of
        None \<Rightarrow> (if dropWhile isspace s = [] then EOF else 0, 0, CHR 0x00, CHR 0x00)
      | Some (val, rest) \<Rightarrow>
          (case rest of
             [] \<Rightarrow> (1, val, CHR 0x00, CHR 0x00)
           | [c] \<Rightarrow> (2, val, c, CHR 0x00)
           | c # d # _ \<Rightarrow> (3, val, c, d)))"

subsection \<open>The size argument and the size of a file\<close>

definition get_size_value :: "nat \<Rightarrow> string \<Rightarrow> world \<Rightarrow> nat \<times> world" where
  "get_size_value w strsize \<sigma> =
     (case sscanf w strsize of (ret, val, suffix, tail) \<Rightarrow>
        if ret = 1 then (val, \<sigma>)
        else if ret = 2 \<and> (suffix = CHR ''k'' \<or> suffix = CHR ''K'') then
          ((val * 1024) mod 2 ^ w, \<sigma>)
        else if ret = 2 \<and> (suffix = CHR ''m'' \<or> suffix = CHR ''M'') then
          ((val * (1024 * 1024)) mod 2 ^ w, \<sigma>)
        else if ret = 2 \<and> (suffix = CHR ''g'' \<or> suffix = CHR ''G'') then
          ((val * (1024 * 1024 * 1024)) mod 2 ^ w, \<sigma>)
        else (SIZE_ERROR w, eprint (InvalidSize strsize) \<sigma>))"

definition get_file_size :: "nat \<Rightarrow> FILE \<Rightarrow> string \<Rightarrow> world \<Rightarrow> nat \<times> FILE \<times> world" where
  "get_file_size w file filename \<sigma> =
     (case ftell w file of (initial_pos, file1) \<Rightarrow>
        if initial_pos = - 1 then (SIZE_ERROR w, file1, eprint (Errno filename) \<sigma>)
        else case fseek file1 0 SEEK_END of (err, file2) \<Rightarrow>
          if err \<noteq> 0 then (SIZE_ERROR w, file2, eprint (Errno filename) \<sigma>)
          else case ftell w file2 of (end_pos, file3) \<Rightarrow>
            if end_pos = - 1 then (SIZE_ERROR w, file3, eprint (Errno filename) \<sigma>)
            else case fseek file3 initial_pos SEEK_SET of (err, file4) \<Rightarrow>
              if err \<noteq> 0 then (SIZE_ERROR w, file4, eprint (Errno filename) \<sigma>)
              else (to_size_t w end_pos, file4, \<sigma>))"

subsection \<open>The streaming primitives\<close>

text \<open>
  Both loops go through the global \<open>g_buffer\<close>: \<^verbatim>\<open>memset\<close> overwrites its first bytes,
  \<^verbatim>\<open>fread\<close> stores what it delivers at its start, and \<^verbatim>\<open>fwrite\<close> sends its first
  \<open>towrite\<close> bytes.
\<close>

definition memset :: "byte list \<Rightarrow> byte \<Rightarrow> nat \<Rightarrow> byte list" where
  "memset buf v n = replicate n v @ drop n buf"

function write_byte_block_loop :: "FILE \<Rightarrow> string \<Rightarrow> nat \<Rightarrow> world \<Rightarrow> int \<times> FILE \<times> world" where
  "write_byte_block_loop outfile outfilename count \<sigma> =
     (if count > 0 then
        (let towrite = MIN2 BUFFER_SIZE count
         in case fwrite (take towrite (g_buffer \<sigma>)) outfile of (written, outfile1) \<Rightarrow>
              if written \<noteq> towrite then (0, outfile1, eprint (Errno outfilename) \<sigma>)
              else write_byte_block_loop outfile1 outfilename (count - written) \<sigma>)
      else (1, outfile, \<sigma>))"
  by pat_completeness auto
termination
  by (relation "measure (\<lambda>(outfile, outfilename, count, \<sigma>). count)")
     (auto simp: MIN2_def BUFFER_SIZE_def split: if_splits)

definition write_byte_block :: "FILE \<Rightarrow> string \<Rightarrow> byte \<Rightarrow> nat \<Rightarrow> world \<Rightarrow> int \<times> FILE \<times> world" where
  "write_byte_block outfile outfilename v count \<sigma> =
     write_byte_block_loop outfile outfilename count
       (\<sigma>\<lparr>g_buffer := memset (g_buffer \<sigma>) v (MIN2 BUFFER_SIZE count)\<rparr>)"

function copy_stream ::
  "FILE \<Rightarrow> string \<Rightarrow> FILE \<Rightarrow> string \<Rightarrow> nat \<Rightarrow> world \<Rightarrow> int \<times> FILE \<times> FILE \<times> world" where
  "copy_stream infile infilename outfile outfilename count \<sigma> =
     (let toread = MIN2 BUFFER_SIZE count
      in if toread = 0 then (1, infile, outfile, \<sigma>)
         else case fread toread infile of (got, infile1) \<Rightarrow>
           (let towrite = length got;
                \<sigma>1 = \<sigma>\<lparr>g_buffer := got @ drop towrite (g_buffer \<sigma>)\<rparr>
            in if towrite = 0 then
                 (if ferror infile1 then (0, infile1, outfile, eprint (Errno infilename) \<sigma>1)
                  else (0, infile1, outfile, eprint (PrematureEOF infilename) \<sigma>1))
               else case fwrite (take towrite (g_buffer \<sigma>1)) outfile of (written, outfile1) \<Rightarrow>
                 if written \<noteq> towrite then (0, infile1, outfile1, eprint (Errno outfilename) \<sigma>1)
                 else copy_stream infile1 infilename outfile1 outfilename (count - written) \<sigma>1))"
  by pat_completeness auto
termination
  by (relation "measure (\<lambda>(infile, infilename, outfile, outfilename, count, \<sigma>). count)")
     (auto simp: MIN2_def BUFFER_SIZE_def fread_def Let_def split: if_splits)

subsection \<open>The transformation rules\<close>

text \<open>
  \<open>append_and_pad\<close> returns what it stored through \<^verbatim>\<open>psource_size\<close> as the second
  component of its result.
\<close>

definition append_and_pad ::
  "nat \<Rightarrow> FILE \<Rightarrow> string \<Rightarrow> FILE \<Rightarrow> string \<Rightarrow> nat \<Rightarrow> world
     \<Rightarrow> int \<times> nat \<times> FILE \<times> FILE \<times> world" where
  "append_and_pad w infile infilename outfile outfilename target_sz \<sigma> =
     (case get_file_size w infile infilename \<sigma> of (source_sz, infile1, \<sigma>1) \<Rightarrow>
        if source_sz = SIZE_ERROR w then (0, source_sz, infile1, outfile, \<sigma>1)
        else if source_sz > target_sz then
          (0, source_sz, infile1, outfile,
           eprint (TooBig infilename (source_sz - target_sz)) \<sigma>1)
        else case copy_stream infile1 infilename outfile outfilename source_sz \<sigma>1 of
          (ret, infile2, outfile2, \<sigma>2) \<Rightarrow>
            if ret = 0 then (ret, source_sz, infile2, outfile2, \<sigma>2)
            else (let free_size = target_sz - source_sz
                  in case write_byte_block outfile2 outfilename 0 free_size \<sigma>2 of
                    (ret, outfile3, \<sigma>3) \<Rightarrow>
                      if ret = 0 then (ret, source_sz, infile2, outfile3, \<sigma>3)
                      else (1, source_sz, infile2, outfile3, \<sigma>3)))"

definition cmd_pad ::
  "nat \<Rightarrow> FILE \<Rightarrow> string \<Rightarrow> FILE \<Rightarrow> string \<Rightarrow> nat \<Rightarrow> world
     \<Rightarrow> int \<times> FILE \<times> FILE \<times> world" where
  "cmd_pad w infile infilename outfile outfilename target_sz \<sigma> =
     (let \<sigma>0 = oprint (Padding infilename (c_div (to_long w target_sz) 1024) outfilename) \<sigma>
      in case append_and_pad w infile infilename outfile outfilename target_sz \<sigma>0 of
        (ret, source_sz, infile1, outfile1, \<sigma>1) \<Rightarrow>
          if ret = 0 then (ret, infile1, outfile1, \<sigma>1)
          else (let free_size = target_sz - source_sz
                in (1, infile1, outfile1, oprint (DoneFree outfilename free_size) \<sigma>1)))"

definition jmp_instr :: "byte list" where
  "jmp_instr = [0x4e, 0xf9, 0x00, 0xe0, 0x00, 0x00]"

definition cmd_pak3 ::
  "nat \<Rightarrow> FILE \<Rightarrow> string \<Rightarrow> FILE \<Rightarrow> string \<Rightarrow> world \<Rightarrow> int \<times> FILE \<times> FILE \<times> world" where
  "cmd_pak3 w infile infilename outfile outfilename \<sigma> =
     (let max_size = 256 * 1024;
          target_sz = 512 * 1024;
          jmp_address = 0x40030;
          \<sigma>0 = oprint (Padding infilename (c_div (to_long w target_sz) 1024) outfilename) \<sigma>
      in case get_file_size w infile infilename \<sigma>0 of (source_sz, infile1, \<sigma>1) \<Rightarrow>
        if source_sz = SIZE_ERROR w then (0, infile1, outfile, \<sigma>1)
        else if source_sz > max_size then
          (0, infile1, outfile, eprint (TooBig infilename (source_sz - max_size)) \<sigma>1)
        else case append_and_pad w infile1 infilename outfile outfilename target_sz \<sigma>1 of
          (ret, source_sz, infile2, outfile2, \<sigma>2) \<Rightarrow>
            if ret = 0 then (ret, infile2, outfile2, \<sigma>2)
            else case fseek outfile2 jmp_address SEEK_SET of (err, outfile3) \<Rightarrow>
              if err \<noteq> 0 then (0, infile2, outfile3, eprint (Errno outfilename) \<sigma>2)
              else case fwrite jmp_instr outfile3 of (written, outfile4) \<Rightarrow>
                if written \<noteq> length jmp_instr then
                  (0, infile2, outfile4, eprint (Errno outfilename) \<sigma>2)
                else (1, infile2, outfile4, oprint (Done outfilename) \<sigma>2))"

definition cmd_stc ::
  "nat \<Rightarrow> FILE \<Rightarrow> string \<Rightarrow> FILE \<Rightarrow> string \<Rightarrow> world \<Rightarrow> int \<times> FILE \<times> FILE \<times> world" where
  "cmd_stc w infile infilename outfile outfilename \<sigma> =
     (let target_sz = 128 * 1024;
          \<sigma>0 = oprint (PaddingSteem infilename (c_div (to_long w target_sz) 1024) outfilename) \<sigma>
      in case get_file_size w infile infilename \<sigma>0 of (source_sz, infile1, \<sigma>1) \<Rightarrow>
        if source_sz = SIZE_ERROR w then (0, infile1, outfile, \<sigma>1)
        else if source_sz > target_sz then
          (0, infile1, outfile, eprint (TooBig infilename (source_sz - target_sz)) \<sigma>1)
        else case write_byte_block outfile outfilename 0 4 \<sigma>1 of (ret, outfile1, \<sigma>2) \<Rightarrow>
          if ret = 0 then (ret, infile1, outfile1, \<sigma>2)
          else case copy_stream infile1 infilename outfile1 outfilename source_sz \<sigma>2 of
            (ret, infile2, outfile2, \<sigma>3) \<Rightarrow>
              if ret = 0 then (ret, infile2, outfile2, \<sigma>3)
              else (let free_size = target_sz - source_sz
                    in case write_byte_block outfile2 outfilename 0 free_size \<sigma>3 of
                      (ret, outfile3, \<sigma>4) \<Rightarrow>
                        if ret = 0 then (ret, infile2, outfile3, \<sigma>4)
                        else (1, infile2, outfile3,
                              oprint (DoneFree outfilename free_size) \<sigma>4)))"

subsection \<open>The host and the main program\<close>

text \<open>
  The host is the file system the program runs on. A path denotes a directory entry
  (\<open>slot\<close>: two spellings of one path, such as \<^verbatim>\<open>in.bin\<close> and \<^verbatim>\<open>./in.bin\<close>, denote the
  same entry); an entry that exists holds a file (\<open>link\<close>: two entries may hold the same
  file, as hard links do), and a file has a content (\<open>store\<close>). Files numbered from
  \<open>next_file\<close> on are not in use. The host also says which paths may be opened for
  writing and which may be removed, how the devices behind the source and the
  destination behave, and it keeps a log of the \<^verbatim>\<open>fopen\<close> calls made.

  \<^verbatim>\<open>fopen\<close> returns the stream together with the file the stream is on. Opening for
  writing empties the file of an existing entry and creates a new empty file for a
  missing one. A file holds what was written to its stream once the stream is closed
  (\<open>flush\<close>). \<^verbatim>\<open>remove\<close> deletes the directory entry, or fails and changes nothing.
\<close>

record host =
  slot :: "string \<Rightarrow> nat"
  link :: "nat \<Rightarrow> nat option"
  store :: "nat \<Rightarrow> byte list"
  next_file :: nat
  writable :: "string \<Rightarrow> bool"
  removable :: "string \<Rightarrow> bool"
  src_caps :: "nat list"
  src_faults :: "bool list"
  dst_caps :: "nat list"
  dst_faults :: "bool list"
  fopen_log :: "string list"

definition fopen :: "string \<Rightarrow> string \<Rightarrow> host \<Rightarrow> (FILE \<times> nat) option \<times> host" where
  "fopen filename mode h =
     (let h1 = h\<lparr>fopen_log := fopen_log h @ [filename]\<rparr>;
          e = slot h filename
      in if mode = ''rb'' then
           (case link h e of
              None \<Rightarrow> (None, h1)
            | Some i \<Rightarrow>
                (Some (\<lparr>bytes = store h i, fpos = 0, ferror = False,
                        caps = src_caps h, faults = src_faults h\<rparr>, i), h1))
         else if mode = ''wb'' \<and> writable h filename then
           (case link h e of
              Some i \<Rightarrow>
                (Some (\<lparr>bytes = [], fpos = 0, ferror = False,
                        caps = dst_caps h, faults = dst_faults h\<rparr>, i),
                 h1\<lparr>store := (store h)(i := [])\<rparr>)
            | None \<Rightarrow>
                (Some (\<lparr>bytes = [], fpos = 0, ferror = False,
                        caps = dst_caps h, faults = dst_faults h\<rparr>, next_file h),
                 h1\<lparr>link := (link h)(e \<mapsto> next_file h),
                    store := (store h)(next_file h := []),
                    next_file := Suc (next_file h)\<rparr>))
         else (None, h1))"

definition flush :: "nat \<Rightarrow> FILE \<Rightarrow> host \<Rightarrow> host" where
  "flush i f h = h\<lparr>store := (store h)(i := bytes f)\<rparr>"

definition remove :: "string \<Rightarrow> host \<Rightarrow> int \<times> host" where
  "remove filename h =
     (if removable h filename \<and> link h (slot h filename) \<noteq> None then
        (0, h\<lparr>link := (link h)(slot h filename := None)\<rparr>)
      else (- 1, h))"

text \<open>What a path holds: the content of the file of its entry, if the entry exists.\<close>

definition contents :: "host \<Rightarrow> string \<Rightarrow> byte list option" where
  "contents h filename =
     (case link h (slot h filename) of None \<Rightarrow> None | Some i \<Rightarrow> Some (store h i))"

definition initial_world :: world where
  "initial_world = \<lparr>g_buffer = replicate BUFFER_SIZE 0, stderr = [], stdout = []\<rparr>"

text \<open>
  \<open>main_run\<close> is \<^verbatim>\<open>main\<close> from the comment \<^verbatim>\<open>Open the source file\<close> to its end, with
  the variables the argument analysis has set. \<^verbatim>\<open>bootfilename\<close> is \<^verbatim>\<open>NULL\<close>
  throughout, so the two blocks that depend on it never run. When the destination
  stream is on the file the source stream is on (one path spelled twice, or two links
  to one file), opening it for writing has emptied the file the source stream reads.
  The result of \<^verbatim>\<open>remove\<close> is not looked at, as in the program. \<^verbatim>\<open>abort()\<close> ends
  the program with the status of a process killed by \<^verbatim>\<open>SIGABRT\<close>.
\<close>

definition main_run ::
  "nat \<Rightarrow> CMD_TYPE \<Rightarrow> nat \<Rightarrow> string \<Rightarrow> string \<Rightarrow> host \<Rightarrow> world \<Rightarrow> int \<times> host \<times> world" where
  "main_run w op target_sz infilename outfilename h \<sigma> =
     (case fopen infilename ''rb'' h of
        (None, h1) \<Rightarrow> (1, h1, eprint (Errno infilename) \<sigma>)
      | (Some (infile0, src), h1) \<Rightarrow>
          (case fopen outfilename ''wb'' h1 of
             (None, h2) \<Rightarrow> (1, h2, eprint (Errno outfilename) \<sigma>)
           | (Some (outfile, dst), h2) \<Rightarrow>
               (let infile = (if dst = src then infile0\<lparr>bytes := []\<rparr> else infile0)
                in case (case op of
                           CMD_PAD \<Rightarrow>
                             Some (cmd_pad w infile infilename outfile outfilename target_sz \<sigma>)
                         | CMD_PAK3 \<Rightarrow>
                             Some (cmd_pak3 w infile infilename outfile outfilename \<sigma>)
                         | CMD_STC \<Rightarrow>
                             Some (cmd_stc w infile infilename outfile outfilename \<sigma>)
                         | CMD_NONE \<Rightarrow> None) of
                     None \<Rightarrow> (134, h2, \<sigma>)
                   | Some (ret, infile1, outfile1, \<sigma>1) \<Rightarrow>
                       (let h3 = flush dst outfile1 h2
                        in if ret = 0 then (1, snd (remove outfilename h3), \<sigma>1)
                           else if fclose outfile1 \<noteq> 0 then
                             (1, snd (remove outfilename h3), eprint (Errno outfilename) \<sigma>1)
                           else if fclose infile1 \<noteq> 0 then
                             (1, h3, eprint (Errno infilename) \<sigma>1)
                           else (0, h3, \<sigma>1)))))"

definition main :: "nat \<Rightarrow> string list \<Rightarrow> host \<Rightarrow> int \<times> host \<times> world" where
  "main w argv h =
     (let argc = length argv
      in if argc = 5 \<and> argv ! 1 = ''pad'' then
           (case get_size_value w (argv ! 2) initial_world of (target_sz, \<sigma>) \<Rightarrow>
              if target_sz = SIZE_ERROR w then (1, h, \<sigma>)
              else main_run w CMD_PAD target_sz (argv ! 3) (argv ! 4) h \<sigma>)
         else if argc = 4 \<and> argv ! 1 = ''pak3'' then
           main_run w CMD_PAK3 0 (argv ! 2) (argv ! 3) h initial_world
         else if argc = 4 \<and> argv ! 1 = ''stc'' then
           main_run w CMD_STC 0 (argv ! 2) (argv ! 3) h initial_world
         else (1, h, eprint Usage initial_world))"

subsection \<open>Vocabulary of the statements\<close>

text \<open>\<open>put f xs\<close> is the stream \<open>f\<close> after \<open>xs\<close> went into its file at its position.\<close>

definition put :: "FILE \<Rightarrow> byte list \<Rightarrow> FILE" where
  "put f xs = f\<lparr>bytes := store_at (fpos f) xs (bytes f), fpos := fpos f + length xs\<rparr>"

section \<open>Properties\<close>

subsection \<open>The library model\<close>

declare copy_stream.simps [simp del] write_byte_block_loop.simps [simp del]

lemma MIN2_zero: "MIN2 BUFFER_SIZE n = 0 \<longleftrightarrow> n = 0"
  by (simp add: MIN2_def BUFFER_SIZE_def)

lemma store_at_nil [simp]: "store_at p [] xs = xs"
  by (simp add: store_at_def)

lemma store_at_end: "store_at (length xs) ys xs = xs @ ys"
  by (simp add: store_at_def)

lemma length_store_at:
  "ys \<noteq> [] \<Longrightarrow> length (store_at p ys xs) = max (p + length ys) (length xs)"
  by (auto simp: store_at_def)

lemma store_at_append:
  "store_at (p + length xs) ys (store_at p xs zs) = store_at p (xs @ ys) zs"
proof (cases "xs = [] \<or> ys = []")
  case True
  then show ?thesis by auto
next
  case False
  then have xs: "xs \<noteq> []" and ys: "ys \<noteq> []" by auto
  let ?pre = "take p zs @ replicate (p - length zs) 0"
  have len: "length ?pre = p" by auto
  have A: "store_at p xs zs = (?pre @ xs) @ drop (p + length xs) zs"
    using xs by (simp add: store_at_def)
  have len2: "length (?pre @ xs) = p + length xs" using len by simp
  have tk: "take (p + length xs) (store_at p xs zs) = ?pre @ xs"
    unfolding A using len2 by (metis append_eq_conv_conj)
  have dr: "drop (p + length xs + length ys) (store_at p xs zs) = drop (p + length xs + length ys) zs"
  proof -
    have "drop (p + length xs + length ys) ((?pre @ xs) @ drop (p + length xs) zs)
          = drop (length ys) (drop (p + length xs) zs)"
      using len2 by (metis add.commute append_eq_conv_conj drop_drop)
    then show ?thesis unfolding A by (simp add: add.commute)
  qed
  have l: "p + length xs - length (store_at p xs zs) = 0"
    using xs by (simp add: length_store_at)
  show ?thesis
    using xs ys tk dr l
    by (simp add: store_at_def[of "p + length xs"] store_at_def[of p "xs @ ys"] add.assoc)
qed

lemma granted_le: "granted f n \<le> n"
  by (simp add: granted_def split: list.splits)

lemma put_nil [simp]: "put f [] = f"
  by (simp add: put_def)

lemma put_put: "put (put f xs) ys = put f (xs @ ys)"
  by (simp add: put_def store_at_append add.assoc)

lemma put_fields [simp]:
  "caps (put f xs) = caps f" "faults (put f xs) = faults f" "ferror (put f xs) = ferror f"
  "fpos (put f xs) = fpos f + length xs"
  "bytes (put f xs) = store_at (fpos f) xs (bytes f)"
  by (simp_all add: put_def)

lemma fwrite_all: "caps f = [] \<Longrightarrow> fwrite xs f = (length xs, put f xs)"
  by (cases f) (simp add: fwrite_def granted_def put_def Let_def)

lemma fwrite_full:
  "fwrite xs f = (length xs, f') \<Longrightarrow>
     bytes f' = store_at (fpos f) xs (bytes f) \<and> fpos f' = fpos f + length xs \<and> caps f' = tl (caps f)
     \<and> faults f' = faults f"
  by (auto simp: fwrite_def Let_def)

lemma fread_all:
  "caps f = [] \<Longrightarrow> n \<le> length (bytes f) - fpos f \<Longrightarrow>
     fread n f = (take n (drop (fpos f) (bytes f)), f\<lparr>fpos := fpos f + n\<rparr>)"
  by (cases f) (simp add: fread_def granted_def Let_def min_def)


subsection \<open>The two loops\<close>

lemma take_replicate_le: "m \<le> n \<Longrightarrow> take m xs = replicate m v" if "take n xs = replicate n v"
proof -
  assume "m \<le> n"
  then have "take m xs = take m (take n xs)" by (simp add: min_def)
  also have "\<dots> = replicate m v" using that \<open>m \<le> n\<close> by (simp add: min_def)
  finally show ?thesis .
qed

lemma write_byte_block_loop_success:
  "write_byte_block_loop outfile outfilename count \<sigma> = (1, outfile', \<sigma>') \<Longrightarrow>
   take (MIN2 BUFFER_SIZE count) (g_buffer \<sigma>) = replicate (MIN2 BUFFER_SIZE count) v \<Longrightarrow>
   bytes outfile' = store_at (fpos outfile) (replicate count v) (bytes outfile)
   \<and> fpos outfile' = fpos outfile + count \<and> \<sigma>' = \<sigma>"
proof (induction count arbitrary: outfile rule: less_induct)
  case (less count)
  show ?case
  proof (cases "count = 0")
    case True
    with less.prems show ?thesis by (simp add: write_byte_block_loop.simps[of _ _ 0])
  next
    case False
    define towrite where "towrite = MIN2 BUFFER_SIZE count"
    have tw: "0 < towrite" "towrite \<le> count" "towrite \<le> BUFFER_SIZE"
      using False by (auto simp: towrite_def MIN2_def BUFFER_SIZE_def)
    have chunk: "take towrite (g_buffer \<sigma>) = replicate towrite v"
      using less.prems(2) by (simp add: towrite_def)
    obtain written outfile1 where fw: "fwrite (replicate towrite v) outfile = (written, outfile1)"
      by (cases "fwrite (replicate towrite v) outfile") auto
    have unf: "write_byte_block_loop outfile outfilename count \<sigma> =
        (if written \<noteq> towrite then (0, outfile1, eprint (Errno outfilename) \<sigma>)
         else write_byte_block_loop outfile1 outfilename (count - written) \<sigma>)"
      using False fw chunk
      by (subst write_byte_block_loop.simps) (simp add: towrite_def[symmetric] Let_def)
    from less.prems(1) unf have w: "written = towrite"
      and rec: "write_byte_block_loop outfile1 outfilename (count - towrite) \<sigma> = (1, outfile', \<sigma>')"
      by (auto split: if_splits)
    from fw w have "fwrite (replicate towrite v) outfile = (length (replicate towrite v), outfile1)"
      by simp
    from fwrite_full[OF this]
    have o1: "bytes outfile1 = store_at (fpos outfile) (replicate towrite v) (bytes outfile)"
      "fpos outfile1 = fpos outfile + towrite" by auto
    have le: "MIN2 BUFFER_SIZE (count - towrite) \<le> towrite"
      by (auto simp: towrite_def MIN2_def)
    have pre: "take (MIN2 BUFFER_SIZE (count - towrite)) (g_buffer \<sigma>)
               = replicate (MIN2 BUFFER_SIZE (count - towrite)) v"
      by (rule take_replicate_le[OF chunk le])
    have "count - towrite < count" using tw by simp
    from less.IH[OF this rec pre]
    have r: "bytes outfile' = store_at (fpos outfile1) (replicate (count - towrite) v) (bytes outfile1)"
      "fpos outfile' = fpos outfile1 + (count - towrite)" "\<sigma>' = \<sigma>" by auto
    have "store_at (fpos outfile + length (replicate towrite v)) (replicate (count - towrite) v)
            (store_at (fpos outfile) (replicate towrite v) (bytes outfile))
          = store_at (fpos outfile) (replicate towrite v @ replicate (count - towrite) v) (bytes outfile)"
      by (rule store_at_append)
    moreover have "replicate towrite v @ replicate (count - towrite) v = replicate count v"
      using tw by (simp add: replicate_add[symmetric])
    ultimately show ?thesis using r o1 tw by simp
  qed
qed

lemma write_byte_block_loop_total:
  "caps outfile = [] \<Longrightarrow>
   take (MIN2 BUFFER_SIZE count) (g_buffer \<sigma>) = replicate (MIN2 BUFFER_SIZE count) v \<Longrightarrow>
   write_byte_block_loop outfile outfilename count \<sigma> = (1, put outfile (replicate count v), \<sigma>)"
proof (induction count arbitrary: outfile rule: less_induct)
  case (less count)
  show ?case
  proof (cases "count = 0")
    case True
    then show ?thesis by (simp add: write_byte_block_loop.simps[of _ _ 0])
  next
    case False
    define towrite where "towrite = MIN2 BUFFER_SIZE count"
    have tw: "0 < towrite" "towrite \<le> count"
      using False by (auto simp: towrite_def MIN2_def BUFFER_SIZE_def)
    have chunk: "take towrite (g_buffer \<sigma>) = replicate towrite v"
      using less.prems(2) by (simp add: towrite_def)
    have fw: "fwrite (replicate towrite v) outfile = (towrite, put outfile (replicate towrite v))"
      using fwrite_all[OF less.prems(1), of "replicate towrite v"] by simp
    have unf: "write_byte_block_loop outfile outfilename count \<sigma> =
        write_byte_block_loop (put outfile (replicate towrite v)) outfilename (count - towrite) \<sigma>"
      using False fw chunk
      by (subst write_byte_block_loop.simps) (simp add: towrite_def[symmetric] Let_def)
    have le: "MIN2 BUFFER_SIZE (count - towrite) \<le> towrite"
      by (auto simp: towrite_def MIN2_def)
    have pre: "take (MIN2 BUFFER_SIZE (count - towrite)) (g_buffer \<sigma>)
               = replicate (MIN2 BUFFER_SIZE (count - towrite)) v"
      by (rule take_replicate_le[OF chunk le])
    have c: "caps (put outfile (replicate towrite v)) = []" using less.prems(1) by simp
    have "count - towrite < count" using tw by simp
    from less.IH[OF this c pre]
    have "write_byte_block_loop (put outfile (replicate towrite v)) outfilename (count - towrite) \<sigma>
          = (1, put (put outfile (replicate towrite v)) (replicate (count - towrite) v), \<sigma>)" .
    moreover have "replicate towrite v @ replicate (count - towrite) v = replicate count v"
      using tw by (simp add: replicate_add[symmetric])
    ultimately show ?thesis using unf by (simp add: put_put)
  qed
qed

lemma memset_prefix: "take n (memset buf v n) = replicate n v"
  by (simp add: memset_def)

lemma write_byte_block_total:
  "caps outfile = [] \<Longrightarrow>
   write_byte_block outfile outfilename v count \<sigma> =
     (1, put outfile (replicate count v),
      \<sigma>\<lparr>g_buffer := memset (g_buffer \<sigma>) v (MIN2 BUFFER_SIZE count)\<rparr>)"
  unfolding write_byte_block_def
  by (rule write_byte_block_loop_total) (simp_all add: memset_prefix)

lemma write_byte_block_success:
  "write_byte_block outfile outfilename v count \<sigma> = (1, outfile', \<sigma>') \<Longrightarrow>
   bytes outfile' = store_at (fpos outfile) (replicate count v) (bytes outfile)
   \<and> fpos outfile' = fpos outfile + count"
  unfolding write_byte_block_def
  by (drule write_byte_block_loop_success[where v = v]) (simp_all add: memset_prefix)


lemma copy_stream_zero: "copy_stream infile infilename outfile outfilename 0 \<sigma> = (1, infile, outfile, \<sigma>)"
  by (subst copy_stream.simps) (simp add: MIN2_def)

lemma copy_stream_unfold:
  assumes "0 < count" and "fread (MIN2 BUFFER_SIZE count) infile = (got, infile1)"
  shows "copy_stream infile infilename outfile outfilename count \<sigma> =
     (let \<sigma>1 = \<sigma>\<lparr>g_buffer := got @ drop (length got) (g_buffer \<sigma>)\<rparr>
      in if got = [] then
           (if ferror infile1 then (0, infile1, outfile, eprint (Errno infilename) \<sigma>1)
            else (0, infile1, outfile, eprint (PrematureEOF infilename) \<sigma>1))
         else case fwrite got outfile of (written, outfile1) \<Rightarrow>
           if written \<noteq> length got then (0, infile1, outfile1, eprint (Errno outfilename) \<sigma>1)
           else copy_stream infile1 infilename outfile1 outfilename (count - length got) \<sigma>1)"
proof -
  have "MIN2 BUFFER_SIZE count \<noteq> 0" using assms(1) by (simp add: MIN2_zero)
  then show ?thesis
    using assms(2)
    by (subst copy_stream.simps) (simp add: Let_def split: prod.splits)
qed

lemma fread_facts:
  assumes "fread n f = (got, f1)"
  shows "length got \<le> n" "length got \<le> length (bytes f) - fpos f"
    "fpos f1 = fpos f + length got" "bytes f1 = bytes f" "caps f1 = tl (caps f)"
    "faults f1 = faults f" "got = take (length got) (drop (fpos f) (bytes f))"
  using assms granted_le[of f n] by (auto simp: fread_def Let_def min_def)

lemma copy_stream_total:
  "caps infile = [] \<Longrightarrow> caps outfile = [] \<Longrightarrow> fpos infile + count \<le> length (bytes infile) \<Longrightarrow>
   \<exists>b. copy_stream infile infilename outfile outfilename count \<sigma> =
     (1, infile\<lparr>fpos := fpos infile + count\<rparr>,
      put outfile (take count (drop (fpos infile) (bytes infile))), \<sigma>\<lparr>g_buffer := b\<rparr>)"
proof (induction count arbitrary: infile outfile \<sigma> rule: less_induct)
  case (less count)
  show ?case
  proof (cases "count = 0")
    case True
    show ?thesis using True by (intro exI[of _ "g_buffer \<sigma>"]) (simp add: copy_stream_zero)
  next
    case False
    define n where "n = MIN2 BUFFER_SIZE count"
    define got where "got = take n (drop (fpos infile) (bytes infile))"
    define infile1 where "infile1 = infile\<lparr>fpos := fpos infile + n\<rparr>"
    define \<sigma>1 where "\<sigma>1 = \<sigma>\<lparr>g_buffer := got @ drop (length got) (g_buffer \<sigma>)\<rparr>"
    have n: "0 < n" "n \<le> count" using False by (auto simp: n_def MIN2_def BUFFER_SIZE_def)
    have avail: "n \<le> length (bytes infile) - fpos infile" using n less.prems(3) by simp
    have fr: "fread (MIN2 BUFFER_SIZE count) infile = (got, infile1)"
      using fread_all[OF less.prems(1) avail] by (simp add: n_def got_def infile1_def)
    have lg: "length got = n" using avail by (simp add: got_def)
    have ne: "got \<noteq> []" using lg n by auto
    have fw: "fwrite got outfile = (length got, put outfile got)"
      by (rule fwrite_all[OF less.prems(2)])
    have unf: "copy_stream infile infilename outfile outfilename count \<sigma> =
        copy_stream infile1 infilename (put outfile got) outfilename (count - n) \<sigma>1"
      using copy_stream_unfold[OF _ fr, of infilename outfile outfilename \<sigma>] False ne fw lg
      by (simp add: \<sigma>1_def Let_def)
    have c1: "caps infile1 = []" using less.prems(1) by (simp add: infile1_def)
    have c2: "caps (put outfile got) = []" using less.prems(2) by simp
    have room: "fpos infile1 + (count - n) \<le> length (bytes infile1)"
      using less.prems(3) n by (simp add: infile1_def)
    have "count - n < count" using n by simp
    from less.IH[OF this c1 c2 room]
    obtain b where rec: "copy_stream infile1 infilename (put outfile got) outfilename (count - n) \<sigma>1 =
       (1, infile1\<lparr>fpos := fpos infile1 + (count - n)\<rparr>,
        put (put outfile got) (take (count - n) (drop (fpos infile1) (bytes infile1))),
        \<sigma>1\<lparr>g_buffer := b\<rparr>)" by blast
    have i: "infile1\<lparr>fpos := fpos infile1 + (count - n)\<rparr> = infile\<lparr>fpos := fpos infile + count\<rparr>"
      using n by (simp add: infile1_def)
    have "take n (drop (fpos infile) (bytes infile)) @ take (count - n) (drop (fpos infile + n) (bytes infile))
          = take (n + (count - n)) (drop (fpos infile) (bytes infile))"
      by (simp add: take_add add.commute)
    then have d: "got @ take (count - n) (drop (fpos infile1) (bytes infile1))
          = take count (drop (fpos infile) (bytes infile))"
      using n by (simp add: got_def infile1_def)
    have s: "\<sigma>1\<lparr>g_buffer := b\<rparr> = \<sigma>\<lparr>g_buffer := b\<rparr>" by (simp add: \<sigma>1_def)
    have "copy_stream infile infilename outfile outfilename count \<sigma> =
       (1, infile\<lparr>fpos := fpos infile + count\<rparr>,
        put outfile (take count (drop (fpos infile) (bytes infile))), \<sigma>\<lparr>g_buffer := b\<rparr>)"
      using unf rec i d s by (simp add: put_put)
    then show ?thesis by blast
  qed
qed

lemma fread_quiet:
  "fread n f = (got, f1) \<Longrightarrow> caps f = [] \<Longrightarrow> ferror f1 = ferror f"
  by (auto simp: fread_def Let_def granted_def min_def split: if_splits)

lemma copy_stream_short:
  "length (bytes infile) - fpos infile < count \<Longrightarrow>
   \<exists>d infile' outfile' b.
     copy_stream infile infilename outfile outfilename count \<sigma> =
       (0, infile', outfile', \<sigma>\<lparr>g_buffer := b, stderr := stderr \<sigma> @ [d]\<rparr>)
     \<and> (caps outfile = [] \<longrightarrow> d = PrematureEOF infilename \<or> d = Errno infilename)
     \<and> (caps outfile = [] \<and> caps infile = [] \<and> \<not> ferror infile \<longrightarrow> d = PrematureEOF infilename)"
proof (induction count arbitrary: infile outfile \<sigma> rule: less_induct)
  case (less count)
  from less.prems have pos: "0 < count" by simp
  obtain got infile1 where fr: "fread (MIN2 BUFFER_SIZE count) infile = (got, infile1)"
    by (cases "fread (MIN2 BUFFER_SIZE count) infile") auto
  note ff = fread_facts[OF fr]
  note fq = fread_quiet[OF fr]
  define \<sigma>1 where "\<sigma>1 = \<sigma>\<lparr>g_buffer := got @ drop (length got) (g_buffer \<sigma>)\<rparr>"
  note unf = copy_stream_unfold[OF pos fr, of infilename outfile outfilename \<sigma>, folded \<sigma>1_def]
  have ep: "\<And>d. eprint d \<sigma>1 = \<sigma>\<lparr>g_buffer := g_buffer \<sigma>1, stderr := stderr \<sigma> @ [d]\<rparr>"
    by (simp add: eprint_def \<sigma>1_def)
  show ?case
  proof (cases "got = []")
    case True
    then show ?thesis using unf ep fq by (auto simp: Let_def)
  next
    case False
    obtain written outfile1 where fw: "fwrite got outfile = (written, outfile1)"
      by (cases "fwrite got outfile") auto
    show ?thesis
    proof (cases "written = length got")
      case wr: False
      have "caps outfile \<noteq> []"
        using fw wr fwrite_all[of outfile got] by auto
      then show ?thesis using unf ep False fw wr by (auto simp: Let_def)
    next
      case wr: True
      have unf': "copy_stream infile infilename outfile outfilename count \<sigma> =
          copy_stream infile1 infilename outfile1 outfilename (count - length got) \<sigma>1"
        using unf False fw wr by (simp add: Let_def)
      have lt: "count - length got < count" using False pos by (cases got) auto
      have sh: "length (bytes infile1) - fpos infile1 < count - length got"
        using ff less.prems by simp
      from less.IH[OF lt sh]
      obtain d infile' outfile' b where
        rec: "copy_stream infile1 infilename outfile1 outfilename (count - length got) \<sigma>1 =
                (0, infile', outfile', \<sigma>1\<lparr>g_buffer := b, stderr := stderr \<sigma>1 @ [d]\<rparr>)"
        and dd: "caps outfile1 = [] \<longrightarrow> d = PrematureEOF infilename \<or> d = Errno infilename"
        and de: "caps outfile1 = [] \<and> caps infile1 = [] \<and> \<not> ferror infile1 \<longrightarrow> d = PrematureEOF infilename"
        by blast
      have s: "\<sigma>1\<lparr>g_buffer := b, stderr := stderr \<sigma>1 @ [d]\<rparr> = \<sigma>\<lparr>g_buffer := b, stderr := stderr \<sigma> @ [d]\<rparr>"
        by (simp add: \<sigma>1_def)
      have c: "caps outfile = [] \<Longrightarrow> caps outfile1 = []"
        using fw wr fwrite_full[of got outfile outfile1] by simp
      have ci: "caps infile = [] \<Longrightarrow> caps infile1 = [] \<and> ferror infile1 = ferror infile"
        using ff(5) fq by simp
      have "copy_stream infile infilename outfile outfilename count \<sigma> =
              (0, infile', outfile', \<sigma>\<lparr>g_buffer := b, stderr := stderr \<sigma> @ [d]\<rparr>)"
        using unf' rec s by simp
      then show ?thesis using dd de c ci by blast
    qed
  qed
qed

subsection \<open>The probe and the rules on well-behaved streams\<close>

lemma LONG_MAX_less: "LONG_MAX w < 2 ^ w"
proof -
  have "(2::nat) ^ (w - 1) \<le> 2 ^ w" by (rule power_increasing) simp_all
  moreover have "(0::nat) < 2 ^ (w - 1)" by simp
  ultimately show ?thesis unfolding LONG_MAX_def by linarith
qed

lemma to_size_t_id: "n \<le> LONG_MAX w \<Longrightarrow> to_size_t w (int n) = n"
proof -
  assume "n \<le> LONG_MAX w"
  then have "n < 2 ^ w" using LONG_MAX_less[of w] by simp
  then have "int n mod 2 ^ w = int n"
    by (metis mod_less of_nat_mod of_nat_numeral of_nat_power)
  then show ?thesis by (simp add: to_size_t_def)
qed

lemma get_file_size_ok:
  assumes "faults f = []" "fpos f \<le> LONG_MAX w" "length (bytes f) \<le> LONG_MAX w"
  shows "get_file_size w f filename \<sigma> = (length (bytes f), f, \<sigma>)"
proof -
  have nf: "\<not> next_fault f" using assms(1) by (simp add: next_fault_def)
  have t1: "ftell w f = (int (fpos f), f)"
    using nf assms by (cases f) (simp add: ftell_def)
  have s1: "fseek f 0 SEEK_END = (0, f\<lparr>fpos := length (bytes f)\<rparr>)"
    using nf assms by (cases f) (simp add: fseek_def next_fault_def)
  have t2: "ftell w (f\<lparr>fpos := length (bytes f)\<rparr>) = (int (length (bytes f)), f\<lparr>fpos := length (bytes f)\<rparr>)"
    using nf assms by (cases f) (simp add: ftell_def next_fault_def)
  have s2: "fseek (f\<lparr>fpos := length (bytes f)\<rparr>) (int (fpos f)) SEEK_SET = (0, f)"
    using nf assms by (cases f) (simp add: fseek_def next_fault_def)
  show ?thesis
    unfolding get_file_size_def using t1 s1 t2 s2 assms(3)
    by (simp add: to_size_t_id)
qed

lemma get_file_size_cases:
  assumes "get_file_size w f filename \<sigma> = (n, f', \<sigma>')"
  shows "bytes f' = bytes f \<and> caps f' = caps f \<and> ferror f' = ferror f
         \<and> ((n = SIZE_ERROR w \<and> \<sigma>' = eprint (Errno filename) \<sigma>)
             \<or> (n = length (bytes f) \<and> n \<le> LONG_MAX w \<and> fpos f' = fpos f \<and> \<sigma>' = \<sigma>))"
  using assms to_size_t_id[of "length (bytes f)" w]
  unfolding get_file_size_def ftell_def fseek_def Let_def
  by (auto split: if_splits simp: not_less)


lemma LONG_MAX_32: "32 \<le> w \<Longrightarrow> 2147483647 \<le> LONG_MAX w"
proof -
  assume "32 \<le> w"
  then have "(2::nat) ^ 31 \<le> 2 ^ (w - 1)" by (intro power_increasing) simp_all
  then show ?thesis by (simp add: LONG_MAX_def)
qed

lemma LONG_MAX_less_SIZE_ERROR: "32 \<le> w \<Longrightarrow> LONG_MAX w < SIZE_ERROR w"
proof -
  assume w: "32 \<le> w"
  then have "(2::nat) ^ w = 2 * 2 ^ (w - 1)" by (cases w) simp_all
  moreover have "(0::nat) < 2 ^ (w - 1)" by simp
  ultimately show ?thesis unfolding LONG_MAX_def SIZE_ERROR_def by linarith
qed

lemma kb_128: "32 \<le> w \<Longrightarrow> c_div (to_long w (128 * 1024)) 1024 = 128"
  using LONG_MAX_32[of w] by (simp add: to_long_def c_div_def)

lemma kb_512: "32 \<le> w \<Longrightarrow> c_div (to_long w (512 * 1024)) 1024 = 512"
  using LONG_MAX_32[of w] by (simp add: to_long_def c_div_def)

lemma cmd_stc_ok:
  assumes w: "32 \<le> w"
    and src: "caps infile = []" "faults infile = []" "fpos infile = 0"
    and sz: "length (bytes infile) \<le> 131072"
    and dst: "caps outfile = []"
  shows "\<exists>b. cmd_stc w infile infilename outfile outfilename \<sigma> =
     (1, infile\<lparr>fpos := length (bytes infile)\<rparr>,
      put outfile (replicate 4 0 @ bytes infile @ replicate (131072 - length (bytes infile)) 0),
      \<sigma>\<lparr>g_buffer := b,
        stdout := stdout \<sigma> @ [PaddingSteem infilename 128 outfilename,
                                 DoneFree outfilename (131072 - length (bytes infile))]\<rparr>)"
proof -
  define S where "S = length (bytes infile)"
  define \<sigma>0 where "\<sigma>0 = oprint (PaddingSteem infilename 128 outfilename) \<sigma>"
  have lm: "S \<le> LONG_MAX w" using LONG_MAX_32[OF w] sz by (simp add: S_def)
  have probe: "get_file_size w infile infilename \<sigma>0 = (S, infile, \<sigma>0)"
    unfolding S_def using src lm by (intro get_file_size_ok) (simp_all add: S_def)
  have ne: "S \<noteq> SIZE_ERROR w" using lm LONG_MAX_less_SIZE_ERROR[OF w] by simp
  define out1 where "out1 = put outfile (replicate 4 0)"
  define \<sigma>1 where "\<sigma>1 = \<sigma>0\<lparr>g_buffer := memset (g_buffer \<sigma>0) 0 (MIN2 BUFFER_SIZE 4)\<rparr>"
  have w1: "write_byte_block outfile outfilename 0 4 \<sigma>0 = (1, out1, \<sigma>1)"
    unfolding out1_def \<sigma>1_def by (rule write_byte_block_total[OF dst])
  have c1: "caps out1 = []" using dst by (simp add: out1_def)
  have "fpos infile + S \<le> length (bytes infile)" using src by (simp add: S_def)
  from copy_stream_total[OF src(1) c1 this]
  obtain b where cp: "copy_stream infile infilename out1 outfilename S \<sigma>1 =
      (1, infile\<lparr>fpos := fpos infile + S\<rparr>,
       put out1 (take S (drop (fpos infile) (bytes infile))), \<sigma>1\<lparr>g_buffer := b\<rparr>)"
    by blast
  define out2 where "out2 = put out1 (bytes infile)"
  have cp': "copy_stream infile infilename out1 outfilename S \<sigma>1 =
      (1, infile\<lparr>fpos := S\<rparr>, out2, \<sigma>1\<lparr>g_buffer := b\<rparr>)"
    using cp src by (simp add: S_def out2_def)
  have c2: "caps out2 = []" using c1 by (simp add: out2_def)
  define \<sigma>3 where "\<sigma>3 = \<sigma>1\<lparr>g_buffer := memset b 0 (MIN2 BUFFER_SIZE (131072 - S))\<rparr>"
  have w2: "write_byte_block out2 outfilename 0 (131072 - S) (\<sigma>1\<lparr>g_buffer := b\<rparr>)
        = (1, put out2 (replicate (131072 - S) 0), \<sigma>3)"
    using write_byte_block_total[OF c2, of outfilename 0 "131072 - S" "\<sigma>1\<lparr>g_buffer := b\<rparr>"]
    by (simp add: \<sigma>3_def)
  have o: "put out2 (replicate (131072 - S) 0)
           = put outfile (replicate 4 0 @ bytes infile @ replicate (131072 - S) 0)"
    by (simp add: out2_def out1_def put_put)
  have s: "oprint (DoneFree outfilename (131072 - S)) \<sigma>3
        = \<sigma>\<lparr>g_buffer := g_buffer \<sigma>3,
             stdout := stdout \<sigma> @ [PaddingSteem infilename 128 outfilename,
                                      DoneFree outfilename (131072 - S)]\<rparr>"
    by (simp add: \<sigma>3_def \<sigma>1_def \<sigma>0_def oprint_def)
  have "cmd_stc w infile infilename outfile outfilename \<sigma> =
     (1, infile\<lparr>fpos := S\<rparr>, put out2 (replicate (131072 - S) 0),
      oprint (DoneFree outfilename (131072 - S)) \<sigma>3)"
    unfolding cmd_stc_def using probe ne sz w1 cp' w2 kb_128[OF w]
    by (simp add: Let_def \<sigma>0_def S_def)
  then have "cmd_stc w infile infilename outfile outfilename \<sigma> =
     (1, infile\<lparr>fpos := S\<rparr>,
      put outfile (replicate 4 0 @ bytes infile @ replicate (131072 - S) 0),
      \<sigma>\<lparr>g_buffer := g_buffer \<sigma>3,
        stdout := stdout \<sigma> @ [PaddingSteem infilename 128 outfilename,
                                 DoneFree outfilename (131072 - S)]\<rparr>)"
    by (simp only: o s)
  then show ?thesis unfolding S_def by blast
qed

lemma cmd_stc_too_big:
  assumes "131072 < length (bytes infile)"
  shows "\<exists>infile' \<sigma>'. cmd_stc w infile infilename outfile outfilename \<sigma> = (0, infile', outfile, \<sigma>')"
proof -
  obtain n f' \<sigma>' where g: "get_file_size w infile infilename
      (oprint (PaddingSteem infilename (c_div (to_long w (128 * 1024)) 1024) outfilename) \<sigma>) = (n, f', \<sigma>')"
    by (metis prod_cases3)
  from get_file_size_cases[OF g] assms show ?thesis
    unfolding cmd_stc_def using g by (auto simp: Let_def)
qed



lemma cmd_stc_too_big_diag:
  assumes w: "32 \<le> w"
    and src: "faults infile = []" "fpos infile \<le> LONG_MAX w" "length (bytes infile) \<le> LONG_MAX w"
    and big: "131072 < length (bytes infile)"
  shows "cmd_stc w infile infilename outfile outfilename \<sigma> =
     (0, infile, outfile,
      eprint (TooBig infilename (length (bytes infile) - 131072))
        (oprint (PaddingSteem infilename 128 outfilename) \<sigma>))"
proof -
  have ne: "length (bytes infile) \<noteq> SIZE_ERROR w"
    using src(3) LONG_MAX_less_SIZE_ERROR[OF w] by simp
  show ?thesis
    unfolding cmd_stc_def using get_file_size_ok[OF src] ne big kb_128[OF w]
    by (simp add: Let_def)
qed

lemma append_and_pad_ok:
  assumes w: "32 \<le> w"
    and src: "caps infile = []" "faults infile = []" "fpos infile = 0"
    and sz: "length (bytes infile) \<le> target_sz" "length (bytes infile) \<le> LONG_MAX w"
    and dst: "caps outfile = []"
  shows "\<exists>b. append_and_pad w infile infilename outfile outfilename target_sz \<sigma> =
     (1, length (bytes infile), infile\<lparr>fpos := length (bytes infile)\<rparr>,
      put outfile (bytes infile @ replicate (target_sz - length (bytes infile)) 0),
      \<sigma>\<lparr>g_buffer := b\<rparr>)"
proof -
  define S where "S = length (bytes infile)"
  have probe: "get_file_size w infile infilename \<sigma> = (S, infile, \<sigma>)"
    unfolding S_def using src sz by (intro get_file_size_ok) simp_all
  have ne: "S \<noteq> SIZE_ERROR w" using sz(2) LONG_MAX_less_SIZE_ERROR[OF w] by (simp add: S_def)
  have "fpos infile + S \<le> length (bytes infile)" using src by (simp add: S_def)
  from copy_stream_total[OF src(1) dst this]
  obtain b where cp: "copy_stream infile infilename outfile outfilename S \<sigma> =
      (1, infile\<lparr>fpos := fpos infile + S\<rparr>,
       put outfile (take S (drop (fpos infile) (bytes infile))), \<sigma>\<lparr>g_buffer := b\<rparr>)"
    by blast
  define out2 where "out2 = put outfile (bytes infile)"
  have cp': "copy_stream infile infilename outfile outfilename S \<sigma> =
      (1, infile\<lparr>fpos := S\<rparr>, out2, \<sigma>\<lparr>g_buffer := b\<rparr>)"
    using cp src by (simp add: S_def out2_def)
  have c2: "caps out2 = []" using dst by (simp add: out2_def)
  define b' where "b' = memset b 0 (MIN2 BUFFER_SIZE (target_sz - S))"
  have w2: "write_byte_block out2 outfilename 0 (target_sz - S) (\<sigma>\<lparr>g_buffer := b\<rparr>)
        = (1, put out2 (replicate (target_sz - S) 0), \<sigma>\<lparr>g_buffer := b'\<rparr>)"
    using write_byte_block_total[OF c2, of outfilename 0 "target_sz - S" "\<sigma>\<lparr>g_buffer := b\<rparr>"]
    by (simp add: b'_def)
  have o: "put out2 (replicate (target_sz - S) 0)
           = put outfile (bytes infile @ replicate (target_sz - S) 0)"
    by (simp add: out2_def put_put)
  have "append_and_pad w infile infilename outfile outfilename target_sz \<sigma> =
     (1, S, infile\<lparr>fpos := S\<rparr>, put out2 (replicate (target_sz - S) 0), \<sigma>\<lparr>g_buffer := b'\<rparr>)"
    unfolding append_and_pad_def using probe ne sz(1) cp' w2
    by (simp add: Let_def S_def)
  then have "append_and_pad w infile infilename outfile outfilename target_sz \<sigma> =
     (1, S, infile\<lparr>fpos := S\<rparr>, put outfile (bytes infile @ replicate (target_sz - S) 0),
      \<sigma>\<lparr>g_buffer := b'\<rparr>)"
    by (simp only: o)
  then show ?thesis unfolding S_def by blast
qed

lemma append_and_pad_too_big:
  assumes "target_sz < length (bytes infile)"
  shows "\<exists>n infile' \<sigma>'. append_and_pad w infile infilename outfile outfilename target_sz \<sigma>
            = (0, n, infile', outfile, \<sigma>')"
proof -
  obtain n f' \<sigma>' where g: "get_file_size w infile infilename \<sigma> = (n, f', \<sigma>')"
    by (metis prod_cases3)
  from get_file_size_cases[OF g] assms show ?thesis
    unfolding append_and_pad_def using g by (auto simp: Let_def)
qed

lemma append_and_pad_too_big_diag:
  assumes w: "32 \<le> w"
    and src: "faults infile = []" "fpos infile \<le> LONG_MAX w" "length (bytes infile) \<le> LONG_MAX w"
    and big: "target_sz < length (bytes infile)"
  shows "append_and_pad w infile infilename outfile outfilename target_sz \<sigma> =
     (0, length (bytes infile), infile, outfile,
      eprint (TooBig infilename (length (bytes infile) - target_sz)) \<sigma>)"
proof -
  have ne: "length (bytes infile) \<noteq> SIZE_ERROR w"
    using src(3) LONG_MAX_less_SIZE_ERROR[OF w] by simp
  show ?thesis
    unfolding append_and_pad_def using get_file_size_ok[OF src] ne big
    by (simp add: Let_def)
qed

lemma cmd_pad_ok:
  assumes w: "32 \<le> w"
    and src: "caps infile = []" "faults infile = []" "fpos infile = 0"
    and sz: "length (bytes infile) \<le> target_sz" "length (bytes infile) \<le> LONG_MAX w"
    and dst: "caps outfile = []"
  shows "\<exists>b. cmd_pad w infile infilename outfile outfilename target_sz \<sigma> =
     (1, infile\<lparr>fpos := length (bytes infile)\<rparr>,
      put outfile (bytes infile @ replicate (target_sz - length (bytes infile)) 0),
      \<sigma>\<lparr>g_buffer := b,
        stdout := stdout \<sigma> @ [Padding infilename (c_div (to_long w target_sz) 1024) outfilename,
                                 DoneFree outfilename (target_sz - length (bytes infile))]\<rparr>)"
proof -
  define \<sigma>0 where
    "\<sigma>0 = oprint (Padding infilename (c_div (to_long w target_sz) 1024) outfilename) \<sigma>"
  from append_and_pad_ok[OF w src sz dst, of infilename outfilename \<sigma>0]
  obtain b where ap: "append_and_pad w infile infilename outfile outfilename target_sz \<sigma>0 =
     (1, length (bytes infile), infile\<lparr>fpos := length (bytes infile)\<rparr>,
      put outfile (bytes infile @ replicate (target_sz - length (bytes infile)) 0),
      \<sigma>0\<lparr>g_buffer := b\<rparr>)" by blast
  have "cmd_pad w infile infilename outfile outfilename target_sz \<sigma> =
     (1, infile\<lparr>fpos := length (bytes infile)\<rparr>,
      put outfile (bytes infile @ replicate (target_sz - length (bytes infile)) 0),
      \<sigma>\<lparr>g_buffer := b,
        stdout := stdout \<sigma> @ [Padding infilename (c_div (to_long w target_sz) 1024) outfilename,
                                 DoneFree outfilename (target_sz - length (bytes infile))]\<rparr>)"
    unfolding cmd_pad_def using ap
    by (simp add: Let_def \<sigma>0_def[symmetric]) (simp add: \<sigma>0_def oprint_def)
  then show ?thesis by blast
qed

lemma cmd_pad_too_big:
  assumes "target_sz < length (bytes infile)"
  shows "\<exists>infile' \<sigma>'. cmd_pad w infile infilename outfile outfilename target_sz \<sigma>
            = (0, infile', outfile, \<sigma>')"
proof -
  from append_and_pad_too_big[OF assms]
  obtain n infile' \<sigma>' where "append_and_pad w infile infilename outfile outfilename target_sz
       (oprint (Padding infilename (c_div (to_long w target_sz) 1024) outfilename) \<sigma>)
            = (0, n, infile', outfile, \<sigma>')" by blast
  then show ?thesis unfolding cmd_pad_def by (simp add: Let_def)
qed

lemma cmd_pad_too_big_diag:
  assumes w: "32 \<le> w"
    and src: "faults infile = []" "fpos infile \<le> LONG_MAX w" "length (bytes infile) \<le> LONG_MAX w"
    and big: "target_sz < length (bytes infile)"
  shows "cmd_pad w infile infilename outfile outfilename target_sz \<sigma> =
     (0, infile, outfile,
      eprint (TooBig infilename (length (bytes infile) - target_sz))
        (oprint (Padding infilename (c_div (to_long w target_sz) 1024) outfilename) \<sigma>))"
  unfolding cmd_pad_def using append_and_pad_too_big_diag[OF w src big]
  by (simp add: Let_def)

lemma cmd_pak3_too_big:
  assumes "262144 < length (bytes infile)"
  shows "\<exists>infile' \<sigma>'. cmd_pak3 w infile infilename outfile outfilename \<sigma> = (0, infile', outfile, \<sigma>')"
proof -
  obtain n f' \<sigma>' where g: "get_file_size w infile infilename
      (oprint (Padding infilename (c_div (to_long w (512 * 1024)) 1024) outfilename) \<sigma>) = (n, f', \<sigma>')"
    by (metis prod_cases3)
  from get_file_size_cases[OF g] assms show ?thesis
    unfolding cmd_pak3_def using g by (auto simp: Let_def)
qed

lemma cmd_pak3_too_big_diag:
  assumes w: "32 \<le> w"
    and src: "faults infile = []" "fpos infile \<le> LONG_MAX w" "length (bytes infile) \<le> LONG_MAX w"
    and big: "262144 < length (bytes infile)"
  shows "cmd_pak3 w infile infilename outfile outfilename \<sigma> =
     (0, infile, outfile,
      eprint (TooBig infilename (length (bytes infile) - 262144))
        (oprint (Padding infilename 512 outfilename) \<sigma>))"
proof -
  have ne: "length (bytes infile) \<noteq> SIZE_ERROR w"
    using src(3) LONG_MAX_less_SIZE_ERROR[OF w] by simp
  show ?thesis
    unfolding cmd_pak3_def using get_file_size_ok[OF src] ne big kb_512[OF w]
    by (simp add: Let_def)
qed

lemma cmd_pak3_ok:
  assumes w: "32 \<le> w"
    and src: "caps infile = []" "faults infile = []" "fpos infile = 0"
    and sz: "length (bytes infile) \<le> 262144"
    and dst: "caps outfile = []" "faults outfile = []"
  shows "\<exists>b. cmd_pak3 w infile infilename outfile outfilename \<sigma> =
     (1, infile\<lparr>fpos := length (bytes infile)\<rparr>,
      put ((put outfile (bytes infile @ replicate (524288 - length (bytes infile)) 0))
             \<lparr>fpos := 0x40030\<rparr>) jmp_instr,
      \<sigma>\<lparr>g_buffer := b,
        stdout := stdout \<sigma> @ [Padding infilename 512 outfilename, Done outfilename]\<rparr>)"
proof -
  define S where "S = length (bytes infile)"
  define \<sigma>0 where "\<sigma>0 = oprint (Padding infilename 512 outfilename) \<sigma>"
  have lm: "S \<le> LONG_MAX w" using LONG_MAX_32[OF w] sz by (simp add: S_def)
  have probe: "get_file_size w infile infilename \<sigma>0 = (S, infile, \<sigma>0)"
    unfolding S_def using src lm by (intro get_file_size_ok) (simp_all add: S_def)
  have ne: "S \<noteq> SIZE_ERROR w" using lm LONG_MAX_less_SIZE_ERROR[OF w] by simp
  have sz': "length (bytes infile) \<le> 524288" using sz by simp
  define out2 where "out2 = put outfile (bytes infile @ replicate (524288 - S) 0)"
  from append_and_pad_ok[OF w src sz' lm[unfolded S_def] dst(1), of infilename outfilename \<sigma>0]
  obtain b where ap: "append_and_pad w infile infilename outfile outfilename 524288 \<sigma>0 =
     (1, S, infile\<lparr>fpos := S\<rparr>, out2, \<sigma>0\<lparr>g_buffer := b\<rparr>)"
    unfolding S_def out2_def by blast
  have f2: "faults out2 = []" "caps out2 = []" using dst by (simp_all add: out2_def)
  have sk: "fseek out2 0x40030 SEEK_SET = (0, out2\<lparr>fpos := 0x40030\<rparr>)"
    using f2 by (cases out2) (simp add: fseek_def next_fault_def)
  have fw: "fwrite jmp_instr (out2\<lparr>fpos := 0x40030\<rparr>)
            = (length jmp_instr, put (out2\<lparr>fpos := 0x40030\<rparr>) jmp_instr)"
    by (rule fwrite_all) (simp add: f2)
  have "cmd_pak3 w infile infilename outfile outfilename \<sigma> =
     (1, infile\<lparr>fpos := S\<rparr>, put (out2\<lparr>fpos := 0x40030\<rparr>) jmp_instr,
      oprint (Done outfilename) (\<sigma>0\<lparr>g_buffer := b\<rparr>))"
    unfolding cmd_pak3_def using probe ne sz ap sk fw kb_512[OF w]
    by (simp add: Let_def \<sigma>0_def S_def)
  moreover have "oprint (Done outfilename) (\<sigma>0\<lparr>g_buffer := b\<rparr>) =
      \<sigma>\<lparr>g_buffer := b,
        stdout := stdout \<sigma> @ [Padding infilename 512 outfilename, Done outfilename]\<rparr>"
    by (simp add: \<sigma>0_def oprint_def)
  ultimately show ?thesis unfolding out2_def S_def by auto
qed

subsection \<open>What a run leaves on the standard output\<close>

lemma copy_stream_stdout:
  "copy_stream infile infilename outfile outfilename count \<sigma> = (ret, infile', outfile', \<sigma>') \<Longrightarrow>
   stdout \<sigma>' = stdout \<sigma> \<and> (ret = 0 \<or> ret = 1)"
proof (induction count arbitrary: infile outfile \<sigma> rule: less_induct)
  case (less count)
  show ?case
  proof (cases "count = 0")
    case True
    with less.prems show ?thesis by (auto simp: copy_stream_zero)
  next
    case False
    then have pos: "0 < count" by simp
    obtain got infile1 where fr: "fread (MIN2 BUFFER_SIZE count) infile = (got, infile1)"
      by (cases "fread (MIN2 BUFFER_SIZE count) infile") auto
    define \<sigma>1 where "\<sigma>1 = \<sigma>\<lparr>g_buffer := got @ drop (length got) (g_buffer \<sigma>)\<rparr>"
    note unf = copy_stream_unfold[OF pos fr, of infilename outfile outfilename \<sigma>, folded \<sigma>1_def]
    have s1: "stdout \<sigma>1 = stdout \<sigma>" "\<And>d. stdout (eprint d \<sigma>1) = stdout \<sigma>"
      by (simp_all add: \<sigma>1_def eprint_def)
    show ?thesis
    proof (cases "got = []")
      case True
      then show ?thesis using unf less.prems s1 by (auto simp: Let_def split: if_splits)
    next
      case ne: False
      obtain written outfile1 where fw: "fwrite got outfile = (written, outfile1)"
        by (cases "fwrite got outfile") auto
      show ?thesis
      proof (cases "written = length got")
        case False
        then show ?thesis using unf less.prems s1 ne fw by (auto simp: Let_def)
      next
        case True
        have lt: "count - length got < count" using ne pos by (cases got) auto
        have "copy_stream infile1 infilename outfile1 outfilename (count - length got) \<sigma>1
              = (ret, infile', outfile', \<sigma>')"
          using unf less.prems ne fw True by (simp add: Let_def)
        from less.IH[OF lt this] s1 show ?thesis by simp
      qed
    qed
  qed
qed

lemma write_byte_block_loop_ret:
  "write_byte_block_loop outfile outfilename count \<sigma> = (ret, outfile', \<sigma>') \<Longrightarrow> ret = 0 \<or> ret = 1"
proof (induction count arbitrary: outfile rule: less_induct)
  case (less count)
  show ?case
  proof (cases "count = 0")
    case True
    with less.prems show ?thesis by (auto simp: write_byte_block_loop.simps[of _ _ 0])
  next
    case False
    define towrite where "towrite = MIN2 BUFFER_SIZE count"
    have tw: "0 < towrite" "towrite \<le> count"
      using False by (auto simp: towrite_def MIN2_def BUFFER_SIZE_def)
    obtain written outfile1 where
      fw: "fwrite (take towrite (g_buffer \<sigma>)) outfile = (written, outfile1)"
      by (cases "fwrite (take towrite (g_buffer \<sigma>)) outfile") auto
    have unf: "write_byte_block_loop outfile outfilename count \<sigma> =
        (if written \<noteq> towrite then (0, outfile1, eprint (Errno outfilename) \<sigma>)
         else write_byte_block_loop outfile1 outfilename (count - written) \<sigma>)"
      using False fw
      by (subst write_byte_block_loop.simps) (simp add: towrite_def[symmetric] Let_def)
    show ?thesis
    proof (cases "written = towrite")
      case False
      with unf less.prems show ?thesis by simp
    next
      case True
      with unf less.prems
      have "write_byte_block_loop outfile1 outfilename (count - towrite) \<sigma> = (ret, outfile', \<sigma>')"
        by simp
      moreover have "count - towrite < count" using tw by simp
      ultimately show ?thesis using less.IH by blast
    qed
  qed
qed

lemma write_byte_block_ret:
  "write_byte_block outfile outfilename v count \<sigma> = (ret, outfile', \<sigma>') \<Longrightarrow> ret = 0 \<or> ret = 1"
  unfolding write_byte_block_def by (rule write_byte_block_loop_ret)

lemma write_byte_block_world:
  "write_byte_block outfile outfilename v count \<sigma> = (1, outfile', \<sigma>') \<Longrightarrow>
   stdout \<sigma>' = stdout \<sigma> \<and> stderr \<sigma>' = stderr \<sigma>"
  unfolding write_byte_block_def
  by (drule write_byte_block_loop_success[where v = v]) (simp_all add: memset_prefix)

lemma cmd_stc_success:
  assumes "cmd_stc w infile infilename outfile outfilename \<sigma> = (ret, infile', outfile', \<sigma>')"
    and "ret \<noteq> 0"
  shows "ret = 1 \<and> length (bytes infile) \<le> 131072
         \<and> stdout \<sigma>' = stdout \<sigma> @ [PaddingSteem infilename (c_div (to_long w (128 * 1024)) 1024) outfilename,
                                       DoneFree outfilename (131072 - length (bytes infile))]"
proof -
  let ?\<sigma>0 = "oprint (PaddingSteem infilename (c_div (to_long w (128 * 1024)) 1024) outfilename) \<sigma>"
  obtain n f1 \<sigma>1 where g: "get_file_size w infile infilename ?\<sigma>0 = (n, f1, \<sigma>1)"
    by (metis prod_cases3)
  obtain r1 o1 \<sigma>2 where w1: "write_byte_block outfile outfilename 0 4 \<sigma>1 = (r1, o1, \<sigma>2)"
    by (metis prod_cases3)
  obtain r2 f2 o2 \<sigma>3 where cp: "copy_stream f1 infilename o1 outfilename n \<sigma>2 = (r2, f2, o2, \<sigma>3)"
    by (metis prod_cases4)
  obtain r3 o3 \<sigma>4 where w2: "write_byte_block o2 outfilename 0 (131072 - n) \<sigma>3 = (r3, o3, \<sigma>4)"
    by (metis prod_cases3)
  from assms have run: "n \<noteq> SIZE_ERROR w" "n \<le> 131072" "r1 \<noteq> 0" "r2 \<noteq> 0" "r3 \<noteq> 0"
      "ret = 1" "\<sigma>' = oprint (DoneFree outfilename (131072 - n)) \<sigma>4"
    unfolding cmd_stc_def using g w1 cp w2
    by (auto simp: Let_def split: if_splits)
  have r1: "r1 = 1" using write_byte_block_ret[OF w1] run(3) by simp
  have r3: "r3 = 1" using write_byte_block_ret[OF w2] run(5) by simp
  have n: "n = length (bytes infile)" "\<sigma>1 = ?\<sigma>0"
    using get_file_size_cases[OF g] run(1) by auto
  have "stdout \<sigma>2 = stdout \<sigma>1" using write_byte_block_world[of outfile outfilename 0 4 \<sigma>1 o1 \<sigma>2] w1 r1 by simp
  moreover have "stdout \<sigma>3 = stdout \<sigma>2" using copy_stream_stdout[OF cp] by simp
  moreover have "stdout \<sigma>4 = stdout \<sigma>3"
    using write_byte_block_world[of o2 outfilename 0 "131072 - n" \<sigma>3 o3 \<sigma>4] w2 r3 by simp
  ultimately have "stdout \<sigma>4 = stdout ?\<sigma>0" using n by simp
  then show ?thesis using run n by (simp add: oprint_def)
qed


lemma pak3_image:
  assumes "length xs \<le> 262144"
  shows "store_at 0x40030 jmp_instr (xs @ replicate (524288 - length xs) 0) =
         xs @ replicate (0x40030 - length xs) 0 @ jmp_instr @ replicate (524288 - 0x40036) 0"
  using assms by (simp add: store_at_def jmp_instr_def min_def)

subsection \<open>The size argument\<close>

lemma isdigit_not_isspace: "isdigit c \<Longrightarrow> \<not> isspace c"
  by (auto simp: isdigit_def isspace_def)

lemma isdigit_not_sign: "isdigit c \<Longrightarrow> c \<noteq> CHR ''+'' \<and> c \<noteq> CHR ''-''"
  by (auto simp: isdigit_def)

lemma sign_not_isspace: "\<not> isspace (CHR ''+'')" "\<not> isspace (CHR ''-'')"
  by (simp_all add: isspace_def)

lemma dropWhile_prefix:
  "\<forall>c \<in> set ws. P c \<Longrightarrow> t = [] \<or> \<not> P (hd t) \<Longrightarrow> dropWhile P (ws @ t) = t"
  by (cases t) (simp_all add: dropWhile_append2)

lemma takeWhile_prefix:
  "\<forall>c \<in> set ds. P c \<Longrightarrow> t = [] \<or> \<not> P (hd t) \<Longrightarrow> takeWhile P (ds @ t) = ds"
  by (cases t) (simp_all add: takeWhile_append2)

lemma scan_lu_number:
  assumes ws: "\<forall>c \<in> set ws. isspace c"
    and sg: "sg = [] \<or> sg = ''+'' \<or> sg = ''-''"
    and ds: "ds \<noteq> []" "\<forall>c \<in> set ds. isdigit c"
    and rest: "rest = [] \<or> \<not> isdigit (hd rest)"
  shows "scan_lu w (ws @ sg @ ds @ rest) = Some (strtoul10 w (sg = ''-'') ds, rest)"
proof -
  have hd: "isdigit (hd ds)" using ds by (cases ds) auto
  have t: "sg @ ds @ rest = [] \<or> \<not> isspace (hd (sg @ ds @ rest))"
    using sg ds hd isdigit_not_isspace[of "hd ds"] sign_not_isspace by auto
  have s1: "dropWhile isspace (ws @ sg @ ds @ rest) = sg @ ds @ rest"
    by (rule dropWhile_prefix[OF ws t])
  have tk: "takeWhile isdigit (ds @ rest) = ds" by (rule takeWhile_prefix[OF ds(2) rest])
  have dr: "dropWhile isdigit (ds @ rest) = rest" by (rule dropWhile_prefix[OF ds(2) rest])
  have nosign: "hd (ds @ rest) \<noteq> CHR ''+''" "hd (ds @ rest) \<noteq> CHR ''-''"
    using ds(1) hd isdigit_not_sign[of "hd ds"] by auto
  from sg show ?thesis
  proof (elim disjE)
    assume "sg = []"
    then show ?thesis using s1 tk dr ds(1) nosign by (simp add: scan_lu_def Let_def)
  next
    assume "sg = ''+''"
    then show ?thesis using s1 tk dr ds(1) by (simp add: scan_lu_def Let_def)
  next
    assume "sg = ''-''"
    then show ?thesis using s1 tk dr ds(1) by (simp add: scan_lu_def Let_def)
  qed
qed

lemma scan_lu_no_number:
  assumes ws: "\<forall>c \<in> set ws. isspace c"
    and sg: "sg = [] \<or> sg = ''+'' \<or> sg = ''-''"
    and rest: "rest = [] \<or> \<not> isdigit (hd rest)"
    and bare: "sg = [] \<and> rest \<noteq> [] \<longrightarrow>
                 \<not> isspace (hd rest) \<and> hd rest \<noteq> CHR ''+'' \<and> hd rest \<noteq> CHR ''-''"
  shows "scan_lu w (ws @ sg @ rest) = None"
proof -
  have t: "sg @ rest = [] \<or> \<not> isspace (hd (sg @ rest))"
    using sg bare sign_not_isspace by auto
  have s1: "dropWhile isspace (ws @ sg @ rest) = sg @ rest"
    by (rule dropWhile_prefix[OF ws t])
  have tk: "takeWhile isdigit rest = []" using rest by (cases rest) auto
  from sg show ?thesis
  proof (elim disjE)
    assume e: "sg = []"
    have s1': "dropWhile isspace (ws @ rest) = rest" using s1 e by simp
    show ?thesis
    proof (cases rest)
      case Nil
      have d: "dropWhile isspace ws = []" using ws by simp
      show ?thesis unfolding e Nil by (simp add: scan_lu_def Let_def d)
    next
      case (Cons c cs)
      have d: "dropWhile isspace (ws @ c # cs) = c # cs" using s1' Cons by simp
      have b: "c \<noteq> CHR ''+''" "c \<noteq> CHR ''-''" "\<not> isdigit c"
        using bare e Cons rest by auto
      show ?thesis unfolding e Cons using b by (simp add: scan_lu_def Let_def d)
    qed
  next
    assume "sg = ''+''"
    then show ?thesis using s1 tk by (simp add: scan_lu_def Let_def)
  next
    assume "sg = ''-''"
    then show ?thesis using s1 tk by (simp add: scan_lu_def Let_def)
  qed
qed

lemma strtoul10_fits:
  "atoul 0 ds < 2 ^ w \<Longrightarrow>
   strtoul10 w neg ds = (if neg then (2 ^ w - atoul 0 ds) mod 2 ^ w else atoul 0 ds)"
proof -
  assume "atoul 0 ds < 2 ^ w"
  then have "\<not> ULONG_MAX w < atoul 0 ds" unfolding ULONG_MAX_def by linarith
  then show ?thesis by (simp add: strtoul10_def Let_def)
qed

lemma get_size_value_scanned:
  assumes "scan_lu w s = Some (d, rest)"
  shows "get_size_value w s \<sigma> =
     (if rest = [] then (d, \<sigma>)
      else if rest = ''k'' \<or> rest = ''K'' then ((d * 1024) mod 2 ^ w, \<sigma>)
      else if rest = ''m'' \<or> rest = ''M'' then ((d * 1048576) mod 2 ^ w, \<sigma>)
      else if rest = ''g'' \<or> rest = ''G'' then ((d * 1073741824) mod 2 ^ w, \<sigma>)
      else (SIZE_ERROR w, eprint (InvalidSize s) \<sigma>))"
proof (cases rest)
  case Nil
  then show ?thesis using assms by (simp add: get_size_value_def sscanf_def)
next
  case (Cons c cs)
  show ?thesis
  proof (cases cs)
    case Nil
    then show ?thesis using assms Cons by (simp add: get_size_value_def sscanf_def)
  next
    case (Cons e es)
    then show ?thesis using assms \<open>rest = c # cs\<close> by (simp add: get_size_value_def sscanf_def)
  qed
qed

lemma get_size_value_unscanned:
  assumes "scan_lu w s = None"
  shows "get_size_value w s \<sigma> = (SIZE_ERROR w, eprint (InvalidSize s) \<sigma>)"
  using assms by (simp add: get_size_value_def sscanf_def EOF_def)

lemma main_size_error:
  assumes "get_size_value w strsize initial_world = (SIZE_ERROR w, \<sigma>)"
  shows "main w [prog, ''pad'', strsize, infilename, outfilename] h = (1, h, \<sigma>)"
  using assms by (simp add: main_def)

lemma size_argument_forms:
  "\<exists>ws sg ds rest.
     s = ws @ sg @ ds @ rest
     \<and> (\<forall>c \<in> set ws. isspace c)
     \<and> (sg = [] \<or> sg = ''+'' \<or> sg = ''-'')
     \<and> (\<forall>c \<in> set ds. isdigit c)
     \<and> (rest = [] \<or> \<not> isdigit (hd rest))
     \<and> (ds = [] \<and> sg = [] \<and> rest \<noteq> [] \<longrightarrow>
           \<not> isspace (hd rest) \<and> hd rest \<noteq> CHR ''+'' \<and> hd rest \<noteq> CHR ''-'')"
proof -
  define ws where "ws = takeWhile isspace s"
  define t where "t = dropWhile isspace s"
  define sg where "sg = (if t \<noteq> [] \<and> (hd t = CHR ''+'' \<or> hd t = CHR ''-'') then [hd t] else [])"
  define u where "u = drop (length sg) t"
  define ds where "ds = takeWhile isdigit u"
  define rest where "rest = dropWhile isdigit u"
  have 1: "s = ws @ t" by (simp add: ws_def t_def)
  have 2: "t = sg @ u" by (cases t) (auto simp: sg_def u_def)
  have 3: "u = ds @ rest" by (simp add: ds_def rest_def)
  have a: "\<forall>c \<in> set ws. isspace c" unfolding ws_def by (auto dest: set_takeWhileD)
  have b: "sg = [] \<or> sg = ''+'' \<or> sg = ''-''" by (auto simp: sg_def)
  have c: "\<forall>c \<in> set ds. isdigit c" unfolding ds_def by (auto dest: set_takeWhileD)
  have d: "rest = [] \<or> \<not> isdigit (hd rest)"
    unfolding rest_def by (metis hd_dropWhile)
  have t0: "t = [] \<or> \<not> isspace (hd t)" unfolding t_def by (metis hd_dropWhile)
  have e: "ds = [] \<and> sg = [] \<and> rest \<noteq> [] \<longrightarrow>
           \<not> isspace (hd rest) \<and> hd rest \<noteq> CHR ''+'' \<and> hd rest \<noteq> CHR ''-''"
  proof (intro impI)
    assume h: "ds = [] \<and> sg = [] \<and> rest \<noteq> []"
    then have "t = rest" using 2 3 by simp
    moreover from h have "\<not> (t \<noteq> [] \<and> (hd t = CHR ''+'' \<or> hd t = CHR ''-''))"
      by (auto simp: sg_def split: if_splits)
    ultimately show "\<not> isspace (hd rest) \<and> hd rest \<noteq> CHR ''+'' \<and> hd rest \<noteq> CHR ''-''"
      using t0 h by auto
  qed
  have "s = ws @ sg @ ds @ rest" using 1 2 3 by simp
  with a b c d e show ?thesis by blast
qed

subsection \<open>The main program on a \<open>pad\<close> command\<close>





lemma main_pad_onto_source:
  assumes w: "32 \<le> w"
    and sz: "get_size_value w strsize initial_world = (target_sz, \<tau>)" "target_sz \<noteq> SIZE_ERROR w"
    and src: "link h (slot h infilename) = Some i"
    and same: "link h (slot h outfilename) = Some i"
    and dst: "writable h outfilename"
    and dev: "src_caps h = []" "src_faults h = []" "dst_caps h = []" "dst_faults h = []"
  shows "\<exists>h' \<sigma>'. main w [prog, ''pad'', strsize, infilename, outfilename] h = (0, h', \<sigma>')
                  \<and> contents h' outfilename = Some (replicate target_sz 0)
                  \<and> contents h' infilename = Some (replicate target_sz 0)"
proof -
  define in0 where "in0 = \<lparr>bytes = [], fpos = 0, ferror = False,
                           caps = src_caps h, faults = src_faults h\<rparr>"
  define out0 where "out0 = \<lparr>bytes = [], fpos = 0, ferror = False,
                             caps = dst_caps h, faults = dst_faults h\<rparr>"
  define img :: "byte list" where "img = replicate target_sz 0"
  have p: "caps in0 = []" "faults in0 = []" "fpos in0 = 0" "length (bytes in0) \<le> target_sz"
    "length (bytes in0) \<le> LONG_MAX w" "caps out0 = []"
    using dev by (simp_all add: in0_def out0_def)
  from cmd_pad_ok[OF w p, of infilename outfilename \<tau>]
  obtain \<sigma>' where
    cp: "cmd_pad w in0 infilename out0 outfilename target_sz \<tau> = (1, in0, put out0 img, \<sigma>')"
    by (auto simp: in0_def img_def)
  have cl: "fclose (put out0 img) = 0" "fclose in0 = 0"
    using dev by (simp_all add: fclose_def next_fault_def in0_def out0_def)
  have im: "bytes (put out0 img) = img" by (auto simp: out0_def store_at_def)
  let ?h' = "flush i (put out0 img)
            (h\<lparr>fopen_log := fopen_log h @ [infilename] @ [outfilename],
               store := (store h)(i := [])\<rparr>)"
  have "main w [prog, ''pad'', strsize, infilename, outfilename] h = (0, ?h', \<sigma>')"
    using sz src same dst cp cl
    by (simp add: main_def main_run_def fopen_def Let_def in0_def out0_def[symmetric])
  moreover have "contents ?h' outfilename = Some img" "contents ?h' infilename = Some img"
    using im src same by (simp_all add: flush_def contents_def)
  ultimately show ?thesis unfolding img_def by blast
qed

text \<open>
  The program run as \<^verbatim>\<open>pad 16 in.bin ./in.bin\<close> on a three-byte \<^verbatim>\<open>in.bin\<close>: the two
  paths are one directory entry, opening the destination empties the source before its
  size is read, and the file ends up as 16 zero bytes with exit status 0.
\<close>

lemma same_file_example:
  "\<exists>h' \<sigma>'. main 64 [''mkrom'', ''pad'', ''16'', ''in.bin'', ''./in.bin'']
          \<lparr>slot = (\<lambda>p. if p = ''in.bin'' \<or> p = ''./in.bin'' then 1 else 0),
           link = (\<lambda>_. None)(1 \<mapsto> 0), store = (\<lambda>_. [])(0 := [1, 2, 3]), next_file = 1,
           writable = (\<lambda>_. True), removable = (\<lambda>_. True),
           src_caps = [], src_faults = [], dst_caps = [], dst_faults = [], fopen_log = []\<rparr>
        = (0, h', \<sigma>')
      \<and> contents h' ''in.bin'' = Some (replicate 16 0)"
proof -
  have p: "get_size_value 64 ''16'' initial_world = (16, initial_world)"
    by (simp add: get_size_value_def sscanf_def scan_lu_def strtoul10_def ULONG_MAX_def
        isspace_def isdigit_def Let_def)
  let ?h = "\<lparr>slot = (\<lambda>p. if p = ''in.bin'' \<or> p = ''./in.bin'' then 1 else 0),
           link = (\<lambda>_. None)(1 \<mapsto> 0), store = (\<lambda>_. [])(0 := [1, 2, 3 :: byte]), next_file = 1,
           writable = (\<lambda>_. True), removable = (\<lambda>_. True),
           src_caps = [], src_faults = [], dst_caps = [], dst_faults = [], fopen_log = []\<rparr>"
  show ?thesis
    using main_pad_onto_source[where w = 64 and strsize = "''16''" and target_sz = 16
        and \<tau> = initial_world and infilename = "''in.bin''" and outfilename = "''./in.bin''"
        and i = 0 and prog = "''mkrom''" and h = ?h, OF _ p]
    by (simp add: SIZE_ERROR_def) blast
qed

section \<open>The claims\<close>

subsection \<open>The byte fill\<close>

text \<open>
  Claim C6. For every count and every byte value \<open>v\<close>, a \<open>write_byte_block\<close> that
  reports success has put exactly \<open>count\<close> bytes, each equal to \<open>v\<close>, at the position
  of the destination (appended to the file when the stream stood at its end) and has
  advanced the position by \<open>count\<close>. With \<open>count = 0\<close> the call returns success and
  changes nothing. A count above the 16 KiB buffer goes out in several chunks of the
  buffer filled once by \<open>memset\<close>; every chunk is within the filled part. On a
  destination that takes all it is offered the call does succeed.
\<close>

theorem write_byte_block_fills:
  assumes "write_byte_block outfile outfilename v count \<sigma> = (ret, outfile', \<sigma>')"
  shows "(ret = 1 \<longrightarrow>
            bytes outfile' = store_at (fpos outfile) (replicate count v) (bytes outfile)
            \<and> fpos outfile' = fpos outfile + count
            \<and> (fpos outfile = length (bytes outfile) \<longrightarrow>
                 bytes outfile' = bytes outfile @ replicate count v))
         \<and> (count = 0 \<longrightarrow> ret = 1 \<and> outfile' = outfile \<and> \<sigma>' = \<sigma>)
         \<and> (caps outfile = [] \<longrightarrow> ret = 1)"
proof (intro conjI impI)
  assume r: "ret = 1"
  with assms have a: "write_byte_block outfile outfilename v count \<sigma> = (1, outfile', \<sigma>')" by simp
  from write_byte_block_success[OF a]
  show b: "bytes outfile' = store_at (fpos outfile) (replicate count v) (bytes outfile)"
    and "fpos outfile' = fpos outfile + count" by auto
  assume "fpos outfile = length (bytes outfile)"
  with b show "bytes outfile' = bytes outfile @ replicate count v" by (simp add: store_at_end)
next
  assume z: "count = 0"
  have "write_byte_block outfile outfilename v 0 \<sigma> = (1, outfile, \<sigma>)"
    by (simp add: write_byte_block_def memset_def MIN2_def write_byte_block_loop.simps[of _ _ 0])
  with assms z show "ret = 1" "outfile' = outfile" "\<sigma>' = \<sigma>" by auto
next
  assume "caps outfile = []"
  from write_byte_block_total[OF this, of outfilename v count \<sigma>] assms show "ret = 1" by simp
qed

theorem write_byte_block_fills_witness:
  "\<exists>outfile' \<sigma>'.
     write_byte_block \<lparr>bytes = [1, 2], fpos = 2, ferror = False, caps = [], faults = []\<rparr>
        ''out.img'' 0xAA 20000 initial_world = (1, outfile', \<sigma>')
     \<and> bytes outfile' = [1, 2] @ replicate 20000 0xAA
     \<and> fpos outfile' = 20002"
proof -
  let ?f = "\<lparr>bytes = [1, 2], fpos = 2, ferror = False, caps = [], faults = []\<rparr> :: FILE"
  obtain ret outfile' \<sigma>' where
    run: "write_byte_block ?f ''out.img'' 0xAA 20000 initial_world = (ret, outfile', \<sigma>')"
    by (metis prod_cases3)
  note fills = write_byte_block_fills[OF run]
  from fills have r: "ret = 1" by simp
  from fills r have "bytes outfile' = [1, 2] @ replicate 20000 0xAA" "fpos outfile' = 20002"
    by (simp_all add: store_at_def)
  with run r show ?thesis by blast
qed



subsection \<open>The sized copy\<close>

text \<open>
  Claim C5. For every count above zero and every source that has fewer than \<open>count\<close>
  bytes left before its end, \<open>copy_stream\<close> returns failure, never success, and prints
  one diagnostic; this holds whatever the sizes of the reads that lead to the end of the
  data, partial ones included. When the destination takes all it is offered, the
  diagnostic names the source (premature end of file, or the read error of a stream
  whose error indicator is set); on a source that only ever stops at its end it is the
  premature end of file.
\<close>

theorem copy_stream_premature_end:
  assumes "0 < count" and "length (bytes infile) - fpos infile < count"
  shows "\<exists>d infile' outfile' \<sigma>'.
     copy_stream infile infilename outfile outfilename count \<sigma> = (0, infile', outfile', \<sigma>')
     \<and> stderr \<sigma>' = stderr \<sigma> @ [d]
     \<and> (caps outfile = [] \<longrightarrow> d = PrematureEOF infilename \<or> d = Errno infilename)
     \<and> (caps outfile = [] \<and> caps infile = [] \<and> \<not> ferror infile \<longrightarrow>
           d = PrematureEOF infilename)"
proof -
  from copy_stream_short[OF assms(2), of infilename outfile outfilename \<sigma>]
  obtain d infile' outfile' b where
    run: "copy_stream infile infilename outfile outfilename count \<sigma> =
            (0, infile', outfile', \<sigma>\<lparr>g_buffer := b, stderr := stderr \<sigma> @ [d]\<rparr>)"
    and d1: "caps outfile = [] \<longrightarrow> d = PrematureEOF infilename \<or> d = Errno infilename"
    and d2: "caps outfile = [] \<and> caps infile = [] \<and> \<not> ferror infile \<longrightarrow> d = PrematureEOF infilename"
    by blast
  have "stderr (\<sigma>\<lparr>g_buffer := b, stderr := stderr \<sigma> @ [d]\<rparr>) = stderr \<sigma> @ [d]" by simp
  with run d1 d2 show ?thesis by blast
qed

theorem copy_stream_premature_end_witness:
  "\<exists>infile' outfile' \<sigma>'.
     copy_stream \<lparr>bytes = [1, 2, 3, 4, 5], fpos = 0, ferror = False, caps = [], faults = []\<rparr> ''in.img''
                 \<lparr>bytes = [], fpos = 0, ferror = False, caps = [], faults = []\<rparr> ''out.img''
                 7 initial_world = (0, infile', outfile', \<sigma>')
     \<and> stderr \<sigma>' = [PrematureEOF ''in.img'']"
proof -
  let ?i = "\<lparr>bytes = [1, 2, 3, 4, 5], fpos = 0, ferror = False, caps = [], faults = []\<rparr> :: FILE"
  let ?o = "\<lparr>bytes = [], fpos = 0, ferror = False, caps = [], faults = []\<rparr> :: FILE"
  have "(0::nat) < 7" and "length (bytes ?i) - fpos ?i < 7" by simp_all
  from copy_stream_premature_end[OF this, of "''in.img''" ?o "''out.img''" initial_world]
  show ?thesis by (auto simp: initial_world_def)
qed


subsection \<open>The size probe\<close>

text \<open>
  Claim C7. Whenever \<open>get_file_size\<close> returns successfully (a value other than
  \<open>SIZE_ERROR\<close>), the value is the length of the file and the stream has the position
  and the content it had before the call; a second probe that succeeds returns the same
  value and leaves the same position. On a stream whose position queries and seeks work
  and whose position and length fit a \<open>long\<close>, the probe succeeds and leaves the stream
  as it was.
\<close>

theorem get_file_size_keeps_position:
  "(get_file_size w file filename \<sigma> = (n, file', \<sigma>') \<and> n \<noteq> SIZE_ERROR w \<longrightarrow>
      fpos file' = fpos file \<and> bytes file' = bytes file \<and> n = length (bytes file)
      \<and> (\<forall>m file'' \<sigma>''. get_file_size w file' filename \<sigma>' = (m, file'', \<sigma>'') \<and> m \<noteq> SIZE_ERROR w
            \<longrightarrow> m = n \<and> fpos file'' = fpos file))
   \<and> (faults file = [] \<and> fpos file \<le> LONG_MAX w \<and> length (bytes file) \<le> LONG_MAX w \<longrightarrow>
        get_file_size w file filename \<sigma> = (length (bytes file), file, \<sigma>))"
proof (intro conjI impI allI)
  assume a: "get_file_size w file filename \<sigma> = (n, file', \<sigma>') \<and> n \<noteq> SIZE_ERROR w"
  from get_file_size_cases[of w "file" filename \<sigma> n file' \<sigma>'] a
  show 1: "fpos file' = fpos file" and 2: "bytes file' = bytes file" and 3: "n = length (bytes file)"
    by auto
  fix m file'' \<sigma>''
  assume b: "get_file_size w file' filename \<sigma>' = (m, file'', \<sigma>'') \<and> m \<noteq> SIZE_ERROR w"
  from get_file_size_cases[of w file' filename \<sigma>' m file'' \<sigma>''] b 1 2 3
  show "m = n" and "fpos file'' = fpos file" by auto
next
  assume "faults file = [] \<and> fpos file \<le> LONG_MAX w \<and> length (bytes file) \<le> LONG_MAX w"
  then show "get_file_size w file filename \<sigma> = (length (bytes file), file, \<sigma>)"
    by (intro get_file_size_ok) simp_all
qed

theorem get_file_size_keeps_position_witness:
  "get_file_size 64 \<lparr>bytes = [1, 2, 3, 4, 5], fpos = 2, ferror = False, caps = [], faults = []\<rparr>
      ''in.img'' initial_world
   = (5, \<lparr>bytes = [1, 2, 3, 4, 5], fpos = 2, ferror = False, caps = [], faults = []\<rparr>, initial_world)
   \<and> (5::nat) \<noteq> SIZE_ERROR 64"
  using get_file_size_keeps_position[of 64
      "\<lparr>bytes = [1, 2, 3, 4, 5], fpos = 2, ferror = False, caps = [], faults = []\<rparr>"
      "''in.img''" initial_world 5
      "\<lparr>bytes = [1, 2, 3, 4, 5], fpos = 2, ferror = False, caps = [], faults = []\<rparr>"
      initial_world]
  by (simp add: LONG_MAX_def SIZE_ERROR_def)



subsection \<open>The generic pad\<close>




subsection \<open>The cartridge with a prefix\<close>

text \<open>
  Claim C1 as the spec states it: an input of at most 128 KiB gives an output of exactly
  131072 bytes. The code writes the four zero bytes and then the input padded to 131072
  bytes, 131076 bytes in all. Here on a two-byte input.
\<close>

theorem cmd_stc_length_counterexample:
  "fst (cmd_stc 64 \<lparr>bytes = [0x60, 0x2e], fpos = 0, ferror = False, caps = [], faults = []\<rparr> ''etos.img''
                   \<lparr>bytes = [], fpos = 0, ferror = False, caps = [], faults = []\<rparr> ''etos.stc''
                   initial_world) = 1
   \<and> length (bytes (fst (snd (snd
        (cmd_stc 64 \<lparr>bytes = [0x60, 0x2e], fpos = 0, ferror = False, caps = [], faults = []\<rparr> ''etos.img''
                    \<lparr>bytes = [], fpos = 0, ferror = False, caps = [], faults = []\<rparr> ''etos.stc''
                    initial_world))))) = 131076
   \<and> (131076 :: nat) \<noteq> 131072"
proof -
  let ?i = "\<lparr>bytes = [0x60, 0x2e], fpos = 0, ferror = False, caps = [], faults = []\<rparr> :: FILE"
  let ?o = "\<lparr>bytes = [], fpos = 0, ferror = False, caps = [], faults = []\<rparr> :: FILE"
  obtain b where "cmd_stc 64 ?i ''etos.img'' ?o ''etos.stc'' initial_world =
     (1, ?i\<lparr>fpos := length (bytes ?i)\<rparr>,
      put ?o (replicate 4 0 @ bytes ?i @ replicate (131072 - length (bytes ?i)) 0),
      initial_world\<lparr>g_buffer := b,
        stdout := stdout initial_world @ [PaddingSteem ''etos.img'' 128 ''etos.stc'',
                                 DoneFree ''etos.stc'' (131072 - length (bytes ?i))]\<rparr>)"
    using cmd_stc_ok[of 64 ?i ?o "''etos.img''" "''etos.stc''" initial_world] by auto
  then show ?thesis by (simp add: store_at_def)
qed

text \<open>
  Claim C1, amended. On a host with at least 32-bit sizes, with a source stream that
  stands at its start and a destination that is empty, both on devices that work: for
  every input of size \<open>S \<le> 131072\<close> the \<open>stc\<close> rule succeeds and the output holds
  exactly \<open>131076 = 4 + 131072\<close> bytes, four zero bytes, then the input, then
  \<open>131072 - S\<close> zero bytes. For every input of more than 131072 bytes the rule fails,
  on any device.
\<close>

theorem cmd_stc_image:
  assumes "cmd_stc w infile infilename outfile outfilename \<sigma> = (ret, infile', outfile', \<sigma>')"
  shows "(32 \<le> w \<and> caps infile = [] \<and> faults infile = [] \<and> fpos infile = 0
          \<and> caps outfile = [] \<and> bytes outfile = [] \<and> fpos outfile = 0
          \<and> length (bytes infile) \<le> 131072 \<longrightarrow>
            ret = 1
            \<and> bytes outfile' = replicate 4 0 @ bytes infile
                                @ replicate (131072 - length (bytes infile)) 0
            \<and> length (bytes outfile') = 131076)
         \<and> (131072 < length (bytes infile) \<longrightarrow> ret = 0)"
proof (intro conjI impI)
  assume a: "32 \<le> w \<and> caps infile = [] \<and> faults infile = [] \<and> fpos infile = 0
          \<and> caps outfile = [] \<and> bytes outfile = [] \<and> fpos outfile = 0
          \<and> length (bytes infile) \<le> 131072"
  then obtain b where "cmd_stc w infile infilename outfile outfilename \<sigma> =
     (1, infile\<lparr>fpos := length (bytes infile)\<rparr>,
      put outfile (replicate 4 0 @ bytes infile @ replicate (131072 - length (bytes infile)) 0),
      \<sigma>\<lparr>g_buffer := b,
        stdout := stdout \<sigma> @ [PaddingSteem infilename 128 outfilename,
                                 DoneFree outfilename (131072 - length (bytes infile))]\<rparr>)"
    using cmd_stc_ok[of w infile outfile infilename outfilename \<sigma>] by blast
  with assms have r: "ret = 1" and o: "outfile' =
      put outfile (replicate 4 0 @ bytes infile @ replicate (131072 - length (bytes infile)) 0)"
    by simp_all
  show "ret = 1" by (rule r)
  show im: "bytes outfile' = replicate 4 0 @ bytes infile @ replicate (131072 - length (bytes infile)) 0"
    using o a by (simp add: store_at_def)
  show "length (bytes outfile') = 131076" using a unfolding im by simp
next
  assume "131072 < length (bytes infile)"
  from cmd_stc_too_big[OF this, of w infilename outfile outfilename \<sigma>] assms
  show "ret = 0" by auto
qed

theorem cmd_stc_image_witness:
  "fst (cmd_stc 64 \<lparr>bytes = [0x60, 0x2e], fpos = 0, ferror = False, caps = [], faults = []\<rparr> ''etos.img''
                   \<lparr>bytes = [], fpos = 0, ferror = False, caps = [], faults = []\<rparr> ''etos.stc''
                   initial_world) = 1
   \<and> bytes (fst (snd (snd
        (cmd_stc 64 \<lparr>bytes = [0x60, 0x2e], fpos = 0, ferror = False, caps = [], faults = []\<rparr> ''etos.img''
                    \<lparr>bytes = [], fpos = 0, ferror = False, caps = [], faults = []\<rparr> ''etos.stc''
                    initial_world))))
     = replicate 4 0 @ [0x60, 0x2e] @ replicate 131070 0"
proof -
  let ?i = "\<lparr>bytes = [0x60, 0x2e], fpos = 0, ferror = False, caps = [], faults = []\<rparr> :: FILE"
  let ?o = "\<lparr>bytes = [], fpos = 0, ferror = False, caps = [], faults = []\<rparr> :: FILE"
  obtain ret infile' outfile' \<sigma>' where
    run: "cmd_stc 64 ?i ''etos.img'' ?o ''etos.stc'' initial_world = (ret, infile', outfile', \<sigma>')"
    by (metis prod_cases4)
  from cmd_stc_image[OF run] have "ret = 1"
    "bytes outfile' = replicate 4 0 @ [0x60, 0x2e] @ replicate 131070 0" by simp_all
  with run show ?thesis by simp
qed

text \<open>
  Claim C2 as the spec states it: the free space reported is \<open>131072 - 4 - S\<close>. The
  code reports \<open>target_size - source_size\<close>, the number of padding bytes it wrote; for
  a two-byte input that is 131070, not 131066.
\<close>

theorem cmd_stc_free_space_counterexample:
  "fst (cmd_stc 64 \<lparr>bytes = [0x60, 0x2e], fpos = 0, ferror = False, caps = [], faults = []\<rparr> ''etos.img''
                   \<lparr>bytes = [], fpos = 0, ferror = False, caps = [], faults = []\<rparr> ''etos.stc''
                   initial_world) = 1
   \<and> last (stdout (snd (snd (snd
        (cmd_stc 64 \<lparr>bytes = [0x60, 0x2e], fpos = 0, ferror = False, caps = [], faults = []\<rparr> ''etos.img''
                    \<lparr>bytes = [], fpos = 0, ferror = False, caps = [], faults = []\<rparr> ''etos.stc''
                    initial_world)))))
     = DoneFree ''etos.stc'' 131070
   \<and> (131070 :: nat) \<noteq> 131072 - 4 - 2"
proof -
  let ?i = "\<lparr>bytes = [0x60, 0x2e], fpos = 0, ferror = False, caps = [], faults = []\<rparr> :: FILE"
  let ?o = "\<lparr>bytes = [], fpos = 0, ferror = False, caps = [], faults = []\<rparr> :: FILE"
  obtain b where "cmd_stc 64 ?i ''etos.img'' ?o ''etos.stc'' initial_world =
     (1, ?i\<lparr>fpos := length (bytes ?i)\<rparr>,
      put ?o (replicate 4 0 @ bytes ?i @ replicate (131072 - length (bytes ?i)) 0),
      initial_world\<lparr>g_buffer := b,
        stdout := stdout initial_world @ [PaddingSteem ''etos.img'' 128 ''etos.stc'',
                                 DoneFree ''etos.stc'' (131072 - length (bytes ?i))]\<rparr>)"
    using cmd_stc_ok[of 64 ?i ?o "''etos.img''" "''etos.stc''" initial_world] by auto
  then show ?thesis by simp
qed

text \<open>
  Claim C2, amended. Whenever the \<open>stc\<close> rule returns success, the input has a size
  \<open>S \<le> 131072\<close> and the last line the rule printed reports \<open>131072 - S\<close> free bytes.
\<close>

theorem cmd_stc_free_space:
  assumes "cmd_stc w infile infilename outfile outfilename \<sigma> = (ret, infile', outfile', \<sigma>')"
    and "ret \<noteq> 0"
  shows "length (bytes infile) \<le> 131072
         \<and> last (stdout \<sigma>') = DoneFree outfilename (131072 - length (bytes infile))"
  using cmd_stc_success[OF assms] by simp

theorem cmd_stc_free_space_witness:
  "fst (cmd_stc 64 \<lparr>bytes = [0x60, 0x2e, 0x00], fpos = 0, ferror = False, caps = [], faults = []\<rparr> ''etos.img''
                   \<lparr>bytes = [], fpos = 0, ferror = False, caps = [], faults = []\<rparr> ''etos.stc''
                   initial_world) \<noteq> 0
   \<and> last (stdout (snd (snd (snd
        (cmd_stc 64 \<lparr>bytes = [0x60, 0x2e, 0x00], fpos = 0, ferror = False, caps = [], faults = []\<rparr> ''etos.img''
                    \<lparr>bytes = [], fpos = 0, ferror = False, caps = [], faults = []\<rparr> ''etos.stc''
                    initial_world)))))
     = DoneFree ''etos.stc'' 131069"
proof -
  let ?i = "\<lparr>bytes = [0x60, 0x2e, 0x00], fpos = 0, ferror = False, caps = [], faults = []\<rparr> :: FILE"
  let ?o = "\<lparr>bytes = [], fpos = 0, ferror = False, caps = [], faults = []\<rparr> :: FILE"
  obtain ret infile' outfile' \<sigma>' where
    run: "cmd_stc 64 ?i ''etos.img'' ?o ''etos.stc'' initial_world = (ret, infile', outfile', \<sigma>')"
    by (metis prod_cases4)
  have "\<exists>x. cmd_stc 64 ?i ''etos.img'' ?o ''etos.stc'' initial_world = (1, x)"
    using cmd_stc_ok[of 64 ?i ?o "''etos.img''" "''etos.stc''" initial_world] by auto
  with run have ok: "ret \<noteq> 0" by auto
  from cmd_stc_free_space[OF run ok] run ok show ?thesis by simp
qed

subsection \<open>The cartridge with a patch\<close>

text \<open>
  Claim C3. On a host with at least 32-bit sizes, with a source stream that stands at
  its start and a destination that is empty, both on devices that work: for every input
  of size \<open>S \<le> 262144\<close> the \<open>pak3\<close> rule succeeds and the output holds exactly 524288
  bytes; the bytes before \<open>0x40030\<close> are the input followed by zeros, the six bytes from
  \<open>0x40030\<close> are \<open>4e f9 00 e0 00 00\<close>, and the bytes from \<open>0x40036\<close> on are the zeros of
  the padding. For every input of more than 262144 bytes the rule fails, on any device,
  also when the input is below the 524288 bytes of the target.
\<close>

theorem cmd_pak3_image:
  assumes "cmd_pak3 w infile infilename outfile outfilename \<sigma> = (ret, infile', outfile', \<sigma>')"
  shows "(32 \<le> w \<and> caps infile = [] \<and> faults infile = [] \<and> fpos infile = 0
          \<and> caps outfile = [] \<and> faults outfile = [] \<and> bytes outfile = [] \<and> fpos outfile = 0
          \<and> length (bytes infile) \<le> 262144 \<longrightarrow>
            ret = 1
            \<and> length (bytes outfile') = 524288
            \<and> take 0x40030 (bytes outfile')
                = bytes infile @ replicate (0x40030 - length (bytes infile)) 0
            \<and> take 6 (drop 0x40030 (bytes outfile')) = [0x4e, 0xf9, 0x00, 0xe0, 0x00, 0x00]
            \<and> drop 0x40036 (bytes outfile') = replicate (524288 - 0x40036) 0)
         \<and> (262144 < length (bytes infile) \<longrightarrow> ret = 0)"
proof (intro conjI impI)
  assume a: "32 \<le> w \<and> caps infile = [] \<and> faults infile = [] \<and> fpos infile = 0
          \<and> caps outfile = [] \<and> faults outfile = [] \<and> bytes outfile = [] \<and> fpos outfile = 0
          \<and> length (bytes infile) \<le> 262144"
  then obtain b where "cmd_pak3 w infile infilename outfile outfilename \<sigma> =
     (1, infile\<lparr>fpos := length (bytes infile)\<rparr>,
      put ((put outfile (bytes infile @ replicate (524288 - length (bytes infile)) 0))
             \<lparr>fpos := 0x40030\<rparr>) jmp_instr,
      \<sigma>\<lparr>g_buffer := b,
        stdout := stdout \<sigma> @ [Padding infilename 512 outfilename, Done outfilename]\<rparr>)"
    using cmd_pak3_ok[of w infile outfile infilename outfilename \<sigma>] by blast
  with assms have r: "ret = 1" and o: "outfile' =
      put ((put outfile (bytes infile @ replicate (524288 - length (bytes infile)) 0))
             \<lparr>fpos := 0x40030\<rparr>) jmp_instr"
    by simp_all
  have "bytes (put outfile (bytes infile @ replicate (524288 - length (bytes infile)) 0))
        = bytes infile @ replicate (524288 - length (bytes infile)) 0"
    using a by (simp add: store_at_def)
  then have "bytes outfile' = store_at 0x40030 jmp_instr
               (bytes infile @ replicate (524288 - length (bytes infile)) 0)"
    unfolding o by simp
  then have im: "bytes outfile' = bytes infile @ replicate (0x40030 - length (bytes infile)) 0
                   @ jmp_instr @ replicate (524288 - 0x40036) 0"
    using a pak3_image[of "bytes infile"] by simp
  show "ret = 1" by (rule r)
  show "length (bytes outfile') = 524288" using a unfolding im by (simp add: jmp_instr_def)
  show "take 0x40030 (bytes outfile') = bytes infile @ replicate (0x40030 - length (bytes infile)) 0"
    using a unfolding im by simp
  show "take 6 (drop 0x40030 (bytes outfile')) = [0x4e, 0xf9, 0x00, 0xe0, 0x00, 0x00]"
    using a unfolding im by (simp add: jmp_instr_def)
  show "drop 0x40036 (bytes outfile') = replicate (524288 - 0x40036) 0"
    using a unfolding im by (simp add: jmp_instr_def)
next
  assume "262144 < length (bytes infile)"
  from cmd_pak3_too_big[OF this, of w infilename outfile outfilename \<sigma>] assms
  show "ret = 0" by auto
qed


theorem cmd_pak3_image_witness:
  "fst (cmd_pak3 64 \<lparr>bytes = replicate 262144 0xFF, fpos = 0, ferror = False, caps = [], faults = []\<rparr>
                    ''etos256k.img''
                    \<lparr>bytes = [], fpos = 0, ferror = False, caps = [], faults = []\<rparr> ''etospak3.img''
                    initial_world) = 1
   \<and> take 6 (drop 0x40030 (bytes (fst (snd (snd
        (cmd_pak3 64 \<lparr>bytes = replicate 262144 0xFF, fpos = 0, ferror = False, caps = [], faults = []\<rparr>
                     ''etos256k.img''
                     \<lparr>bytes = [], fpos = 0, ferror = False, caps = [], faults = []\<rparr> ''etospak3.img''
                     initial_world))))))
     = [0x4e, 0xf9, 0x00, 0xe0, 0x00, 0x00]
   \<and> length (bytes (fst (snd (snd
        (cmd_pak3 64 \<lparr>bytes = replicate 262144 0xFF, fpos = 0, ferror = False, caps = [], faults = []\<rparr>
                     ''etos256k.img''
                     \<lparr>bytes = [], fpos = 0, ferror = False, caps = [], faults = []\<rparr> ''etospak3.img''
                     initial_world))))) = 524288"
proof -
  let ?i = "\<lparr>bytes = replicate 262144 0xFF, fpos = 0, ferror = False, caps = [], faults = []\<rparr> :: FILE"
  let ?o = "\<lparr>bytes = [], fpos = 0, ferror = False, caps = [], faults = []\<rparr> :: FILE"
  obtain ret infile' outfile' \<sigma>' where
    run: "cmd_pak3 64 ?i ''etos256k.img'' ?o ''etospak3.img'' initial_world
            = (ret, infile', outfile', \<sigma>')"
    by (metis prod_cases4)
  from cmd_pak3_image[OF run] have "ret = 1"
    "take 6 (drop 0x40030 (bytes outfile')) = [0x4e, 0xf9, 0x00, 0xe0, 0x00, 0x00]"
    "length (bytes outfile') = 524288" by simp_all
  with run show ?thesis by simp
qed

subsection \<open>Nothing is written for an input above the ceiling\<close>

text \<open>
  Claim C9. For each of the three rules, an input larger than the ceiling of the rule
  (the target size for \<open>pad\<close>, 262144 for \<open>pak3\<close>, 131072 for \<open>stc\<close>) makes the rule
  return failure with the destination stream exactly as it was handed in: no byte
  written, position unchanged. When the probe of the source works, the failure is the
  one of the ceiling check: the source stream is unchanged too and the one diagnostic
  printed is the too-big message with the excess in bytes.
\<close>

theorem too_big_writes_nothing:
  "(target_sz < length (bytes infile) \<longrightarrow>
      (\<exists>infile' \<sigma>'. cmd_pad w infile infilename outfile outfilename target_sz \<sigma>
                        = (0, infile', outfile, \<sigma>')))
   \<and> (262144 < length (bytes infile) \<longrightarrow>
      (\<exists>infile' \<sigma>'. cmd_pak3 w infile infilename outfile outfilename \<sigma> = (0, infile', outfile, \<sigma>')))
   \<and> (131072 < length (bytes infile) \<longrightarrow>
      (\<exists>infile' \<sigma>'. cmd_stc w infile infilename outfile outfilename \<sigma> = (0, infile', outfile, \<sigma>')))
   \<and> (32 \<le> w \<and> faults infile = [] \<and> fpos infile \<le> LONG_MAX w
        \<and> length (bytes infile) \<le> LONG_MAX w \<longrightarrow>
      (target_sz < length (bytes infile) \<longrightarrow>
         cmd_pad w infile infilename outfile outfilename target_sz \<sigma> =
           (0, infile, outfile,
            eprint (TooBig infilename (length (bytes infile) - target_sz))
              (oprint (Padding infilename (c_div (to_long w target_sz) 1024) outfilename) \<sigma>)))
      \<and> (262144 < length (bytes infile) \<longrightarrow>
         cmd_pak3 w infile infilename outfile outfilename \<sigma> =
           (0, infile, outfile,
            eprint (TooBig infilename (length (bytes infile) - 262144))
              (oprint (Padding infilename 512 outfilename) \<sigma>)))
      \<and> (131072 < length (bytes infile) \<longrightarrow>
         cmd_stc w infile infilename outfile outfilename \<sigma> =
           (0, infile, outfile,
            eprint (TooBig infilename (length (bytes infile) - 131072))
              (oprint (PaddingSteem infilename 128 outfilename) \<sigma>))))"
  using cmd_pad_too_big[of target_sz infile w infilename outfile outfilename \<sigma>]
    cmd_pak3_too_big[of infile w infilename outfile outfilename \<sigma>]
    cmd_stc_too_big[of infile w infilename outfile outfilename \<sigma>]
    cmd_pad_too_big_diag[of w infile target_sz infilename outfile outfilename \<sigma>]
    cmd_pak3_too_big_diag[of w infile infilename outfile outfilename \<sigma>]
    cmd_stc_too_big_diag[of w infile infilename outfile outfilename \<sigma>]
  by (intro conjI impI) blast+

theorem too_big_writes_nothing_witness:
  "cmd_stc 64 \<lparr>bytes = replicate 131073 0xFF, fpos = 0, ferror = False, caps = [], faults = []\<rparr>
       ''etos.img''
       \<lparr>bytes = [], fpos = 0, ferror = False, caps = [], faults = []\<rparr> ''etos.stc'' initial_world
   = (0, \<lparr>bytes = replicate 131073 0xFF, fpos = 0, ferror = False, caps = [], faults = []\<rparr>,
      \<lparr>bytes = [], fpos = 0, ferror = False, caps = [], faults = []\<rparr>,
      eprint (TooBig ''etos.img'' 1) (oprint (PaddingSteem ''etos.img'' 128 ''etos.stc'') initial_world))"
  using too_big_writes_nothing[of 0
      "\<lparr>bytes = replicate 131073 0xFF, fpos = 0, ferror = False, caps = [], faults = []\<rparr>" 64
      "''etos.img''" "\<lparr>bytes = [], fpos = 0, ferror = False, caps = [], faults = []\<rparr>"
      "''etos.stc''" initial_world]
  by (simp add: LONG_MAX_def)


subsection \<open>The size argument\<close>

text \<open>
  Claim C8 as the spec states it: every string that is not a decimal number, alone or
  with one of the suffixes, is reported as an invalid size. The conversion \<^verbatim>\<open>%lu\<close>
  of \<^verbatim>\<open>sscanf\<close> skips white space before the number, so the three-character
  argument made of a blank and \<^verbatim>\<open>1\<close> is accepted as the size 1, with no diagnostic.
\<close>

theorem get_size_value_accepts_blank_counterexample:
  "get_size_value 64 '' 1'' initial_world = (1, initial_world)"
  by (simp add: get_size_value_def sscanf_def scan_lu_def strtoul10_def ULONG_MAX_def
      isspace_def isdigit_def Let_def)

text \<open>
  Claim C8, amended. Take a string made of white space (possibly none), an optional
  sign \<^verbatim>\<open>+\<close> or \<^verbatim>\<open>-\<close>, a run of decimal digits, and a rest that does not start with a
  digit. When the digits are a number \<open>d < 2 ^ w\<close> (with a minus sign, \<open>d\<close> stands for
  \<open>2 ^ w - d\<close> modulo \<open>2 ^ w\<close> below), \<open>get_size_value\<close> returns \<open>d\<close> for an empty rest,
  \<open>d * 1024\<close>, \<open>d * 1048576\<close> and \<open>d * 1073741824\<close> modulo \<open>2 ^ w\<close> for a rest that is
  the one character \<^verbatim>\<open>k\<close>/\<^verbatim>\<open>K\<close>, \<^verbatim>\<open>m\<close>/\<^verbatim>\<open>M\<close>, \<^verbatim>\<open>g\<close>/\<^verbatim>\<open>G\<close>, and for every other rest
  (an unknown suffix, or any character after the suffix) it prints the invalid-size
  diagnostic and returns \<open>SIZE_ERROR\<close>. When there is no digit at that place, it prints
  the diagnostic and returns \<open>SIZE_ERROR\<close> as well. Every string has one of the two
  forms (\<open>size_argument_forms\<close>).
\<close>

theorem get_size_value_table:
  assumes "\<forall>c \<in> set ws. isspace c"
    and "sg = [] \<or> sg = ''+'' \<or> sg = ''-''"
    and "\<forall>c \<in> set ds. isdigit c"
    and "rest = [] \<or> \<not> isdigit (hd rest)"
  shows "(ds \<noteq> [] \<and> atoul 0 ds < 2 ^ w \<longrightarrow>
           get_size_value w (ws @ sg @ ds @ rest) \<sigma> =
             (let d = (if sg = ''-'' then (2 ^ w - atoul 0 ds) mod 2 ^ w else atoul 0 ds)
              in if rest = [] then (d, \<sigma>)
                 else if rest = ''k'' \<or> rest = ''K'' then ((d * 1024) mod 2 ^ w, \<sigma>)
                 else if rest = ''m'' \<or> rest = ''M'' then ((d * 1048576) mod 2 ^ w, \<sigma>)
                 else if rest = ''g'' \<or> rest = ''G'' then ((d * 1073741824) mod 2 ^ w, \<sigma>)
                 else (SIZE_ERROR w, eprint (InvalidSize (ws @ sg @ ds @ rest)) \<sigma>)))
         \<and> (ds = [] \<and> (sg = [] \<and> rest \<noteq> [] \<longrightarrow>
                         \<not> isspace (hd rest) \<and> hd rest \<noteq> CHR ''+'' \<and> hd rest \<noteq> CHR ''-'') \<longrightarrow>
              get_size_value w (ws @ sg @ ds @ rest) \<sigma> =
                (SIZE_ERROR w, eprint (InvalidSize (ws @ sg @ ds @ rest)) \<sigma>))"
proof (intro conjI impI)
  assume a: "ds \<noteq> [] \<and> atoul 0 ds < 2 ^ w"
  then have sc: "scan_lu w (ws @ sg @ ds @ rest) = Some (strtoul10 w (sg = ''-'') ds, rest)"
    using assms by (intro scan_lu_number) simp_all
  show "get_size_value w (ws @ sg @ ds @ rest) \<sigma> =
             (let d = (if sg = ''-'' then (2 ^ w - atoul 0 ds) mod 2 ^ w else atoul 0 ds)
              in if rest = [] then (d, \<sigma>)
                 else if rest = ''k'' \<or> rest = ''K'' then ((d * 1024) mod 2 ^ w, \<sigma>)
                 else if rest = ''m'' \<or> rest = ''M'' then ((d * 1048576) mod 2 ^ w, \<sigma>)
                 else if rest = ''g'' \<or> rest = ''G'' then ((d * 1073741824) mod 2 ^ w, \<sigma>)
                 else (SIZE_ERROR w, eprint (InvalidSize (ws @ sg @ ds @ rest)) \<sigma>))"
    unfolding get_size_value_scanned[OF sc] strtoul10_fits[OF conjunct2[OF a]] Let_def
    by (rule refl)
next
  assume b: "ds = [] \<and> (sg = [] \<and> rest \<noteq> [] \<longrightarrow>
                         \<not> isspace (hd rest) \<and> hd rest \<noteq> CHR ''+'' \<and> hd rest \<noteq> CHR ''-'')"
  have "scan_lu w (ws @ sg @ rest) = None"
    using assms b by (intro scan_lu_no_number) simp_all
  from get_size_value_unscanned[OF this] b
  show "get_size_value w (ws @ sg @ ds @ rest) \<sigma> =
                (SIZE_ERROR w, eprint (InvalidSize (ws @ sg @ ds @ rest)) \<sigma>)" by simp
qed

theorem get_size_value_table_witness:
  "get_size_value 64 ''512k'' initial_world = (524288, initial_world)
   \<and> get_size_value 64 '' +4G'' initial_world = (4294967296, initial_world)
   \<and> get_size_value 32 ''4g'' initial_world = (0, initial_world)
   \<and> get_size_value 64 ''16kb'' initial_world
       = (SIZE_ERROR 64, eprint (InvalidSize ''16kb'') initial_world)
   \<and> get_size_value 64 ''k'' initial_world
       = (SIZE_ERROR 64, eprint (InvalidSize ''k'') initial_world)"
proof -
  have 1: "get_size_value 64 ''512k'' initial_world = (524288, initial_world)"
    using get_size_value_table[of "[]" "[]" "''512''" "''k''" 64 initial_world]
    by (simp add: isdigit_def)
  have 2: "get_size_value 64 '' +4G'' initial_world = (4294967296, initial_world)"
    using get_size_value_table[of "'' ''" "''+''" "''4''" "''G''" 64 initial_world]
    by (simp add: isdigit_def isspace_def)
  have 3: "get_size_value 32 ''4g'' initial_world = (0, initial_world)"
    using get_size_value_table[of "[]" "[]" "''4''" "''g''" 32 initial_world]
    by (simp add: isdigit_def)
  have 4: "get_size_value 64 ''16kb'' initial_world
       = (SIZE_ERROR 64, eprint (InvalidSize ''16kb'') initial_world)"
    using get_size_value_table[of "[]" "[]" "''16''" "''kb''" 64 initial_world]
    by (simp add: isdigit_def)
  have 5: "get_size_value 64 ''k'' initial_world
       = (SIZE_ERROR 64, eprint (InvalidSize ''k'') initial_world)"
    using get_size_value_table[of "[]" "[]" "[]" "''k''" 64 initial_world]
    by (simp add: isdigit_def isspace_def)
  from 1 2 3 4 5 show ?thesis by blast
qed

subsection \<open>The size that is the error value\<close>

text \<open>
  Claim C10. A \<open>pad\<close> size argument that is a well-formed decimal number of value
  \<open>2 ^ w - 1\<close> is parsed without any diagnostic, and its value is \<open>SIZE_ERROR\<close>; the
  program then exits with status 1 and leaves the host as it was: no \<^verbatim>\<open>fopen\<close> call
  is made and nothing is printed. This is the exit status and the host state of a
  malformed size such as \<^verbatim>\<open>1x\<close>, which differs only by its diagnostic.
\<close>

theorem size_error_value_is_refused:
  assumes "ds \<noteq> []" and "\<forall>c \<in> set ds. isdigit c" and "atoul 0 ds = 2 ^ w - 1"
  shows "get_size_value w ds initial_world = (SIZE_ERROR w, initial_world)
         \<and> main w [prog, ''pad'', ds, infilename, outfilename] h = (1, h, initial_world)
         \<and> main w [prog, ''pad'', ''1x'', infilename, outfilename] h
             = (1, h, eprint (InvalidSize ''1x'') initial_world)"
proof -
  have fits: "atoul 0 ds < 2 ^ w" using assms(3) by simp
  have "scan_lu w ([] @ [] @ ds @ []) = Some (strtoul10 w ([] = ''-'') ds, [])"
    using assms by (intro scan_lu_number) simp_all
  then have sc: "scan_lu w ds = Some (atoul 0 ds, [])"
    using strtoul10_fits[OF fits, of False] by simp
  have v: "get_size_value w ds initial_world = (SIZE_ERROR w, initial_world)"
    using get_size_value_scanned[OF sc, of initial_world] assms(3) by (simp add: SIZE_ERROR_def)
  have "scan_lu w ([] @ [] @ ''1'' @ ''x'') = Some (strtoul10 w ([] = ''-'') ''1'', ''x'')"
    by (intro scan_lu_number) (simp_all add: isdigit_def)
  then have "scan_lu w ''1x'' = Some (strtoul10 w False ''1'', ''x'')" by simp
  from get_size_value_scanned[OF this, of initial_world]
  have bad: "get_size_value w ''1x'' initial_world
          = (SIZE_ERROR w, eprint (InvalidSize ''1x'') initial_world)" by simp
  show ?thesis using v main_size_error[OF v] main_size_error[OF bad] by simp
qed

theorem size_error_value_is_refused_witness:
  "main 64 [''mkrom'', ''pad'', ''18446744073709551615'', ''etos.img'', ''etos.rom'']
     \<lparr>slot = (\<lambda>p. if p = ''etos.img'' then 1 else 0), link = (\<lambda>_. None)(1 \<mapsto> 0),
      store = (\<lambda>_. [])(0 := [0x60, 0x2e]), next_file = 1,
      writable = (\<lambda>_. True), removable = (\<lambda>_. True),
      src_caps = [], src_faults = [], dst_caps = [], dst_faults = [], fopen_log = []\<rparr>
   = (1, \<lparr>slot = (\<lambda>p. if p = ''etos.img'' then 1 else 0), link = (\<lambda>_. None)(1 \<mapsto> 0),
           store = (\<lambda>_. [])(0 := [0x60, 0x2e]), next_file = 1,
           writable = (\<lambda>_. True), removable = (\<lambda>_. True),
           src_caps = [], src_faults = [], dst_caps = [], dst_faults = [], fopen_log = []\<rparr>,
      initial_world)"
proof -
  have "''18446744073709551615'' \<noteq> []"
    and "\<forall>c \<in> set ''18446744073709551615''. isdigit c"
    and "atoul 0 ''18446744073709551615'' = 2 ^ 64 - 1"
    by (simp_all add: isdigit_def)
  from size_error_value_is_refused[OF this] show ?thesis by simp
qed

end
